theory Spec2Isabelle
  imports Main "HOL-Library.Word" "HOL-Library.Sublist"
begin

section \<open>JavaScript strings\<close>

text \<open>
  A JavaScript string is a sequence of 16-bit code units. The output of the external
  commands reaches \<open>manager.js\<close> as such a string (\<open>result.stdout.toString('utf8')\<close> on
  a string is the string itself), so every parser below works on lists of code units.
  \<open>js\<close> embeds an ASCII literal.
\<close>

type_synonym cu = "16 word"
type_synonym jstr = "cu list"

definition js :: "string \<Rightarrow> jstr" where
  "js s = map of_char s"

text \<open>The errors the modelled code can end with: a rejected promise of the command
  executor, a \<open>TypeError\<close> (a method called on \<open>undefined\<close>) and the \<open>URIError\<close> of
  \<open>decodeURIComponent\<close>.\<close>

datatype error = ExecError | TypeError | URIError

text \<open>ECMAScript \<open>LineTerminator\<close>: LF, CR, U+2028, U+2029. The dot of a regular expression
  matches every code unit but these, and \<open>^\<close> under the \<open>m\<close> flag matches after one.\<close>

definition isLineTerminator :: "cu \<Rightarrow> bool" where
  "isLineTerminator c = (c = 0x0A \<or> c = 0x0D \<or> c = 0x2028 \<or> c = 0x2029)"

text \<open>What \<open>String.prototype.trim\<close>, lodash's \<open>_.trim\<close> without a character set and the
  class \<open>\s\<close> remove: ECMAScript \<open>WhiteSpace\<close> (TAB, VT, FF, SP, NBSP, U+FEFF and the
  Unicode space separators) and \<open>LineTerminator\<close>.\<close>

definition isWhiteSpace :: "cu \<Rightarrow> bool" where
  "isWhiteSpace c =
     (c = 0x09 \<or> c = 0x0B \<or> c = 0x0C \<or> c = 0x20 \<or> c = 0xA0 \<or> c = 0x1680
      \<or> (0x2000 \<le> c \<and> c \<le> 0x200A) \<or> c = 0x202F \<or> c = 0x205F \<or> c = 0x3000
      \<or> c = 0xFEFF \<or> isLineTerminator c)"

definition trim :: "jstr \<Rightarrow> jstr" where
  "trim s = rev (dropWhile isWhiteSpace (rev (dropWhile isWhiteSpace s)))"

text \<open>\<open>s.split(d)\<close> for a one-character separator \<open>d\<close>: never empty, \<open>"".split(d)\<close> is
  \<open>[""]\<close>.\<close>

fun split_on :: "cu \<Rightarrow> jstr \<Rightarrow> jstr list" where
  "split_on d [] = [[]]"
| "split_on d (c # cs) =
     (if c = d then [] # split_on d cs
      else (case split_on d cs of [] \<Rightarrow> [[c]] | l # ls \<Rightarrow> (c # l) # ls))"

text \<open>The split of command output into lines, \<open>s.split(re)\<close> where \<open>re\<close> is the
  alternation of CR LF with the class of LF, CR, U+0085, U+2028 and U+2029: CR LF is
  tried first, so such a pair is one separator.\<close>

definition isLineBreak :: "cu \<Rightarrow> bool" where
  "isLineBreak c = (c = 0x0A \<or> c = 0x0D \<or> c = 0x85 \<or> c = 0x2028 \<or> c = 0x2029)"

fun split_lines :: "jstr \<Rightarrow> jstr list" where
  "split_lines [] = [[]]"
| "split_lines [c] = (if isLineBreak c then [[], []] else [[c]])"
| "split_lines (c # d # cs) =
     (if c = 0x0D \<and> d = 0x0A then [] # split_lines cs
      else if isLineBreak c then [] # split_lines (d # cs)
      else (case split_lines (d # cs) of [] \<Rightarrow> [[c]] | l # ls \<Rightarrow> (c # l) # ls))"

text \<open>\<open>xs[i]\<close> on an array: \<open>undefined\<close> (here \<open>None\<close>) out of range.\<close>

definition at :: "'a list \<Rightarrow> nat \<Rightarrow> 'a option" where
  "at xs i = (if i < length xs then Some (xs ! i) else None)"

text \<open>\<open>_.map(xs, f)\<close> with a callback that may throw: the first exception ends the call.\<close>

fun map_throwing :: "('a \<Rightarrow> error + 'b) \<Rightarrow> 'a list \<Rightarrow> error + 'b list" where
  "map_throwing f [] = Inr []"
| "map_throwing f (x # xs) =
     (case f x of Inl e \<Rightarrow> Inl e
      | Inr y \<Rightarrow> (case map_throwing f xs of Inl e \<Rightarrow> Inl e | Inr ys \<Rightarrow> Inr (y # ys)))"

section \<open>The command executor\<close>

text \<open>
  \<open>await exec(cmd)\<close> (package \<open>child-process-promise\<close>) either throws, when the promise
  is rejected because the command could not be run or exited with a failure status, or
  yields an object with the fields \<open>stdout\<close> and \<open>stderr\<close>.
\<close>

record exec_result =
  stdout :: jstr
  stderr :: jstr

datatype exec_outcome = Rejected | Resolved exec_result

section \<open>Installed printers: \<open>_list\<close>, \<open>list\<close>, \<open>get\<close>\<close>

record PrinterRecord =
  name :: jstr
  connection :: jstr
  isDefault :: bool

text \<open>
  \<open>line.split(/:(.+)?/)\<close>. The separator matches a colon and, greedily, the code units
  after it up to a line terminator; the capture is spliced into the result and is
  \<open>undefined\<close> when the group did not take part. The search for the next separator resumes
  after the match.
\<close>

function split_colon :: "jstr \<Rightarrow> jstr option list" where
  "split_colon s =
     (case dropWhile (\<lambda>c. c \<noteq> 0x3A) s of
        [] \<Rightarrow> [Some s]
      | _ # rest \<Rightarrow>
          (let cap = takeWhile (\<lambda>c. \<not> isLineTerminator c) rest
           in Some (takeWhile (\<lambda>c. c \<noteq> 0x3A) s)
              # (if cap = [] then None else Some cap)
              # split_colon (drop (length cap) rest)))"
  by pat_completeness auto
termination
proof (relation "measure length", goal_cases)
  case 1
  show ?case by simp
next
  case (2 s x rest cap)
  have "length (dropWhile (\<lambda>c. c \<noteq> 0x3A) s) \<le> length s"
    by (rule length_dropWhile_le)
  with 2 show ?case by simp
qed

declare split_colon.simps [simp del]

text \<open>\<open>p.substring(p.lastIndexOf(' ') + 1)\<close>: what follows the last space, all of \<open>p\<close>
  when it has none (\<open>lastIndexOf\<close> is then \<open>-1\<close>).\<close>

definition after_last_space :: "jstr \<Rightarrow> jstr" where
  "after_last_space p = rev (takeWhile (\<lambda>c. c \<noteq> 0x20) (rev p))"

text \<open>The callback of \<open>_.map(lines, line => ...)\<close> in \<open>_list\<close>. \<open>parts[1].trim()\<close> throws
  a \<open>TypeError\<close> when \<open>parts[1]\<close> is \<open>undefined\<close>: the line has no colon, or nothing
  follows its first colon.\<close>

definition parse_line :: "jstr \<Rightarrow> jstr \<Rightarrow> error + PrinterRecord" where
  "parse_line defaults line =
     (case split_colon line of
        Some p0 # parts \<Rightarrow>
          (let nm = trim (after_last_space p0)
           in case parts of
                Some p1 # _ \<Rightarrow>
                  Inr \<lparr>name = nm, connection = trim p1, isDefault = (defaults = nm)\<rparr>
              | _ \<Rightarrow> Inl TypeError)
      | _ \<Rightarrow> Inl TypeError)"

text \<open>
  \<open>_list\<close> (an Isabelle name cannot start with an underscore). After the guard on
  \<open>stderr\<close> and \<open>stdout\<close>, the empty strings are filtered out of the split, the first line
  is spliced off (\<open>lines.splice(0, 1)[0]\<close> is \<open>undefined\<close> when nothing is left, and
  \<open>.split\<close> on it throws), and \<open>_.trim\<close> of its second \<open>:\<close>-piece (\<open>''\<close> for
  \<open>undefined\<close>) is the default printer's name.
\<close>

definition list_internal :: "exec_outcome \<Rightarrow> error + PrinterRecord list" where
  "list_internal out =
     (case out of
        Rejected \<Rightarrow> Inl ExecError
      | Resolved result \<Rightarrow>
          if stderr result \<noteq> [] \<or> stdout result = [] then Inr []
          else (case filter (\<lambda>l. l \<noteq> []) (split_lines (stdout result)) of
                  [] \<Rightarrow> Inl TypeError
                | first # lines \<Rightarrow>
                    (let defaults = trim (case at (split_on 0x3A first) 1 of
                                            None \<Rightarrow> [] | Some d \<Rightarrow> d)
                     in map_throwing (parse_line defaults) lines)))"

text \<open>
  \<open>list\<close> and \<open>get\<close>. The class \<open>Printer\<close> (module \<open>./printer\<close>) is not among the
  sources: its constructor is the parameter \<open>mk\<close>. lodash's \<open>_.toLower\<close> is the parameter
  \<open>lower\<close>. The argument of \<open>get\<close> is \<open>None\<close> for \<open>undefined\<close> or \<open>null\<close>; the empty
  string is falsy as well.
\<close>

definition list :: "(PrinterRecord \<Rightarrow> 'p) \<Rightarrow> exec_outcome \<Rightarrow> error + 'p list" where
  "list mk out =
     (case list_internal out of Inl e \<Rightarrow> Inl e | Inr items \<Rightarrow> Inr (map mk items))"

definition get ::
  "(PrinterRecord \<Rightarrow> 'p) \<Rightarrow> (jstr \<Rightarrow> jstr) \<Rightarrow> exec_outcome \<Rightarrow> jstr option \<Rightarrow> error + 'p option"
where
  "get mk lower out nm =
     (case list_internal out of
        Inl e \<Rightarrow> Inl e
      | Inr items \<Rightarrow>
          Inr (map_option mk
                 (find (\<lambda>item. case nm of
                                 None \<Rightarrow> isDefault item
                               | Some n \<Rightarrow> if n = [] then isDefault item
                                          else lower (name item) = lower n)
                       items)))"

section \<open>The driver catalog and the fuzzy matcher: \<open>findDrivers\<close>\<close>

text \<open>
  A driver object, as pushed on \<open>drivers\<close>. The source's field \<open>id\<close> is \<open>id_attr\<close> here
  (\<open>id\<close> is the identity function of HOL).
\<close>

record DriverRecord =
  driver :: jstr
  lang :: jstr
  makeAndModel :: jstr
  id_attr :: jstr

text \<open>
  Each \<open>drivers.push({...})\<close> allocates a new object, and lodash's \<open>_.union\<close> compares
  objects by reference: two drivers with the same four fields are still two objects.
  An object is therefore a pair of its address and its contents; \<open>findDrivers\<close> numbers the
  drivers in catalog order.
\<close>

type_synonym 'a obj = "nat \<times> 'a"

text \<open>\<open>l.split('=')[1].trim()\<close>: the text between the first and the second \<open>=\<close>, trimmed;
  a \<open>TypeError\<close> when the line has no \<open>=\<close>.\<close>

definition field_value :: "jstr \<Rightarrow> error + jstr" where
  "field_value l = (case at (split_on 0x3D l) 1 of None \<Rightarrow> Inl TypeError | Some v \<Rightarrow> Inr (trim v))"

text \<open>
  The loop \<open>while (lines.length > 4) { const parts = lines.splice(0, 4); drivers.push(...) }\<close>:
  a group of four lines is consumed only while a fifth line is left. \<open>k\<close> is the address
  of the next object.
\<close>

fun read_drivers :: "nat \<Rightarrow> jstr list \<Rightarrow> error + DriverRecord obj list" where
  "read_drivers k (p0 # p1 # p2 # p3 # l # lines) =
     (case field_value p0 of Inl e \<Rightarrow> Inl e | Inr d \<Rightarrow>
      case field_value p1 of Inl e \<Rightarrow> Inl e | Inr la \<Rightarrow>
      case field_value p2 of Inl e \<Rightarrow> Inl e | Inr mm \<Rightarrow>
      case field_value p3 of Inl e \<Rightarrow> Inl e | Inr i \<Rightarrow>
      case read_drivers (Suc k) (l # lines) of Inl e \<Rightarrow> Inl e | Inr ds \<Rightarrow>
        Inr ((k, \<lparr>driver = d, lang = la, makeAndModel = mm, id_attr = i\<rparr>) # ds))"
| "read_drivers k lines = Inr []"

text \<open>
  \<open>fuzzy.filter(pattern, drivers, options)\<close> (package \<open>fuzzy\<close>) is a parameter of the
  model: a function from the pattern and the catalog to the ranked hits, each carrying the
  matched driver in its field \<open>original\<close> (and a string, a score and an index, the
  extension of the record).
\<close>

record fuzzy_hit =
  original :: "DriverRecord obj"

type_synonym 'h fuzzy_filter = "jstr \<Rightarrow> DriverRecord obj list \<Rightarrow> 'h fuzzy_hit_scheme list"

text \<open>\<open>tokens.join(' ')\<close>.\<close>

fun join_space :: "jstr list \<Rightarrow> jstr" where
  "join_space [] = []"
| "join_space [t] = t"
| "join_space (t # u # ts) = t @ 0x20 # join_space (u # ts)"

text \<open>
  The loop \<open>while (index > 0) { items = fuzzy.filter(tokens.slice(0, index--).join(' '), ...);
  if (items && items.length) return items.map(item => item.original) }\<close>. The result is
  the value of the callback (\<open>None\<close> for \<open>undefined\<close>, when the loop ends without a
  \<open>return\<close>) together with the patterns passed to \<open>fuzzy.filter\<close>, in the order of the
  calls.
\<close>

fun try_windows ::
  "'h fuzzy_filter \<Rightarrow> DriverRecord obj list \<Rightarrow> jstr list \<Rightarrow> nat
   \<Rightarrow> DriverRecord obj list option \<times> jstr list" where
  "try_windows ff drivers tokens 0 = (None, [])"
| "try_windows ff drivers tokens (Suc index) =
     (let pattern = join_space (take (Suc index) tokens);
          items = ff pattern drivers
      in if items \<noteq> [] then (Some (map original items), [pattern])
         else (case try_windows ff drivers tokens index of
                 (res, consulted) \<Rightarrow> (res, pattern # consulted)))"

definition match_slug ::
  "'h fuzzy_filter \<Rightarrow> DriverRecord obj list \<Rightarrow> jstr
   \<Rightarrow> DriverRecord obj list option \<times> jstr list" where
  "match_slug ff drivers slug =
     (let tokens = split_on 0x20 slug in try_windows ff drivers tokens (length tokens))"

text \<open>\<open>_.flatten\<close> flattens one level: an array element contributes its elements, any
  other element (here \<open>undefined\<close>) is kept as it is.\<close>

definition lodash_flatten :: "'a list option list \<Rightarrow> 'a option list" where
  "lodash_flatten items = concat (map (\<lambda>i. case i of None \<Rightarrow> [None] | Some xs \<Rightarrow> map Some xs) items)"

text \<open>\<open>SameValueZero\<close> on values that are \<open>undefined\<close> or objects: objects are equal when
  they are the same object.\<close>

definition same_value :: "'a obj option \<Rightarrow> 'a obj option \<Rightarrow> bool" where
  "same_value x y =
     (case (x, y) of (None, None) \<Rightarrow> True | (Some a, Some b) \<Rightarrow> fst a = fst b | _ \<Rightarrow> False)"

text \<open>\<open>_.union(xs)\<close> of one array: its elements without repetition, each at its first
  occurrence. \<open>seen\<close> is the result so far.\<close>

fun uniq_into :: "'a obj option list \<Rightarrow> 'a obj option list \<Rightarrow> 'a obj option list" where
  "uniq_into seen [] = seen"
| "uniq_into seen (x # xs) =
     (if list_ex (same_value x) seen then uniq_into seen xs else uniq_into (seen @ [x]) xs)"

definition lodash_union :: "'a obj option list \<Rightarrow> 'a obj option list" where
  "lodash_union xs = uniq_into [] xs"

text \<open>
  \<open>_.slice(xs, 0, end)\<close> for an integer \<open>end\<close>: \<open>[]\<close> for an empty array; otherwise an
  \<open>end\<close> beyond the length is the length, and a negative \<open>end\<close> counts from the length
  (and gives \<open>[]\<close> when still negative).
\<close>

definition slice0 :: "'a list \<Rightarrow> int \<Rightarrow> 'a list" where
  "slice0 xs e =
     (let n = int (length xs);
          e1 = (if e > n then n else e);
          e2 = (if e1 < 0 then e1 + n else e1)
      in if 0 > e2 then [] else take (nat e2) xs)"

text \<open>
  The argument \<open>slugs\<close>: absent (\<open>undefined\<close> or \<open>null\<close>), one string, or an array of
  strings. \<open>!slugs\<close> holds for the absent argument and for the empty string; \<open>arrify\<close>
  makes a one-element array of a string and leaves an array alone.
\<close>

datatype slugs_arg = NoSlugs | OneSlug jstr | SlugArray "jstr list"

definition falsy :: "slugs_arg \<Rightarrow> bool" where
  "falsy slugs = (case slugs of NoSlugs \<Rightarrow> True | OneSlug s \<Rightarrow> s = [] | SlugArray _ \<Rightarrow> False)"

definition arrify :: "slugs_arg \<Rightarrow> jstr list" where
  "arrify slugs = (case slugs of NoSlugs \<Rightarrow> [] | OneSlug s \<Rightarrow> [s] | SlugArray ss \<Rightarrow> ss)"

text \<open>
  \<open>findDrivers(slugs, maxsize = 10)\<close>: \<open>maxsize\<close> is \<open>None\<close> when the argument is
  \<open>undefined\<close>. An element of the result is a driver object or \<open>undefined\<close>.
\<close>

definition default_maxsize :: "int option \<Rightarrow> int" where
  "default_maxsize maxsize = (case maxsize of None \<Rightarrow> 10 | Some m \<Rightarrow> m)"

definition findDrivers ::
  "'h fuzzy_filter \<Rightarrow> exec_outcome \<Rightarrow> slugs_arg \<Rightarrow> int option
   \<Rightarrow> error + DriverRecord obj option list" where
  "findDrivers ff out slugs maxsize =
     (case out of
        Rejected \<Rightarrow> Inl ExecError
      | Resolved result \<Rightarrow>
          (case read_drivers 0 (split_on 0x0A (stdout result)) of
             Inl e \<Rightarrow> Inl e
           | Inr drivers \<Rightarrow>
               if falsy slugs then Inr (map Some drivers)
               else (let items = map (\<lambda>slug. fst (match_slug ff drivers slug)) (arrify slugs)
                     in if items = [] then Inr []
                        else Inr (slice0 (lodash_union (lodash_flatten items))
                                    (default_maxsize maxsize)))))"

text \<open>
  Two notions for stating what the catalog loop reads. \<open>unlines\<close> is the text whose lines
  are the given ones, each ended by a line feed, as \<open>lpinfo\<close> prints them. \<open>group_read\<close>
  says that a driver record holds the four values of the \<open>i\<close>-th group of four lines.
\<close>

definition unlines :: "jstr list \<Rightarrow> jstr" where
  "unlines ls = concat (map (\<lambda>l. l @ [0x0A]) ls)"

definition group_read :: "jstr list \<Rightarrow> nat \<Rightarrow> DriverRecord \<Rightarrow> bool" where
  "group_read ls i r =
     (field_value (ls ! (4 * i)) = Inr (driver r) \<and> field_value (ls ! (4 * i + 1)) = Inr (lang r)
      \<and> field_value (ls ! (4 * i + 2)) = Inr (makeAndModel r)
      \<and> field_value (ls ! (4 * i + 3)) = Inr (id_attr r))"

section \<open>Device discovery: \<open>discover\<close>\<close>

subsection \<open>\<open>decodeURIComponent\<close>\<close>

text \<open>
  ECMAScript's \<open>Decode\<close> with an empty reserved set. A code unit other than \<open>%\<close> is
  copied. \<open>%\<close> must be followed by two hexadecimal digits; a byte below \<open>0x80\<close> is the
  code unit itself; a byte from \<open>0xC0\<close> to \<open>0xF7\<close> starts a UTF-8 sequence whose
  continuation bytes must follow as escapes of the form \<open>%XX\<close> with the bits \<open>10xxxxxx\<close>;
  the sequence must be the well-formed UTF-8 encoding of a code point (not overlong, no
  surrogate, at most U+10FFFF), which is appended in UTF-16. Everything else is a
  \<open>URIError\<close>.
\<close>

definition hex_digit :: "cu \<Rightarrow> nat option" where
  "hex_digit c =
     (if 0x30 \<le> c \<and> c \<le> 0x39 then Some (unat c - 0x30)
      else if 0x41 \<le> c \<and> c \<le> 0x46 then Some (unat c - 0x37)
      else if 0x61 \<le> c \<and> c \<le> 0x66 then Some (unat c - 0x57)
      else None)"

fun pct_byte :: "jstr \<Rightarrow> (nat \<times> jstr) option" where
  "pct_byte (p # h # l # rest) =
     (if p = 0x25 then
        (case hex_digit h of None \<Rightarrow> None
         | Some a \<Rightarrow> (case hex_digit l of None \<Rightarrow> None | Some b \<Rightarrow> Some (16 * a + b, rest)))
      else None)"
| "pct_byte s = None"

fun cont_bytes :: "nat \<Rightarrow> jstr \<Rightarrow> (nat list \<times> jstr) option" where
  "cont_bytes 0 s = Some ([], s)"
| "cont_bytes (Suc n) s =
     (case pct_byte s of
        None \<Rightarrow> None
      | Some (b, rest) \<Rightarrow>
          if 0x80 \<le> b \<and> b < 0xC0 then
            (case cont_bytes n rest of
               None \<Rightarrow> None
             | Some (bs, rest') \<Rightarrow> Some (b # bs, rest'))
          else None)"

definition utf8_more :: "nat \<Rightarrow> nat option" where
  "utf8_more b =
     (if b < 0xC0 then None else if b < 0xE0 then Some 1 else if b < 0xF0 then Some 2
      else if b < 0xF8 then Some 3 else None)"

definition utf8_value :: "nat \<Rightarrow> nat list \<Rightarrow> nat option" where
  "utf8_value b bs =
     (case bs of
        [c1] \<Rightarrow>
          (let v = (b - 0xC0) * 0x40 + (c1 - 0x80)
           in if 0x80 \<le> v then Some v else None)
      | [c1, c2] \<Rightarrow>
          (let v = (b - 0xE0) * 0x1000 + (c1 - 0x80) * 0x40 + (c2 - 0x80)
           in if 0x800 \<le> v \<and> \<not> (0xD800 \<le> v \<and> v \<le> 0xDFFF) then Some v else None)
      | [c1, c2, c3] \<Rightarrow>
          (let v = (b - 0xF0) * 0x40000 + (c1 - 0x80) * 0x1000 + (c2 - 0x80) * 0x40 + (c3 - 0x80)
           in if 0x10000 \<le> v \<and> v \<le> 0x10FFFF then Some v else None)
      | _ \<Rightarrow> None)"

definition utf16 :: "nat \<Rightarrow> jstr" where
  "utf16 v =
     (if v < 0x10000 then [of_nat v]
      else [of_nat (0xD800 + (v - 0x10000) div 0x400), of_nat (0xDC00 + (v - 0x10000) mod 0x400)])"

lemma pct_byte_length: "pct_byte s = Some (b, rest) \<Longrightarrow> length rest < length s"
  by (induction s rule: pct_byte.induct) (auto split: if_splits option.splits)

lemma cont_bytes_length: "cont_bytes n s = Some (bs, rest) \<Longrightarrow> length rest \<le> length s"
proof (induction n arbitrary: s bs rest)
  case 0
  then show ?case by simp
next
  case (Suc n)
  then show ?case
    by (fastforce split: option.splits if_splits dest: pct_byte_length)
qed

function decodeURIComponent :: "jstr \<Rightarrow> error + jstr" where
  "decodeURIComponent [] = Inr []"
| "decodeURIComponent (c # cs) =
     (if c \<noteq> 0x25 then
        (case decodeURIComponent cs of Inl e \<Rightarrow> Inl e | Inr r \<Rightarrow> Inr (c # r))
      else
        (case pct_byte (c # cs) of
           None \<Rightarrow> Inl URIError
         | Some (b, rest) \<Rightarrow>
             if b < 0x80 then
               (case decodeURIComponent rest of Inl e \<Rightarrow> Inl e | Inr r \<Rightarrow> Inr (of_nat b # r))
             else
               (case utf8_more b of
                  None \<Rightarrow> Inl URIError
                | Some n \<Rightarrow>
                    (case cont_bytes n rest of
                       None \<Rightarrow> Inl URIError
                     | Some (bs, rest') \<Rightarrow>
                         (case utf8_value b bs of
                            None \<Rightarrow> Inl URIError
                          | Some v \<Rightarrow>
                              (case decodeURIComponent rest' of
                                 Inl e \<Rightarrow> Inl e
                               | Inr r \<Rightarrow> Inr (utf16 v @ r)))))))"
  by pat_completeness auto
termination
proof (relation "measure length", goal_cases)
  case 1
  show ?case by simp
next
  case (2 c cs)
  show ?case by simp
next
  case (3 c cs x b rest)
  then show ?case by (auto dest: pct_byte_length)
next
  case (4 c cs x b rest n y bs rest' v)
  then show ?case by (auto dest!: pct_byte_length cont_bytes_length)
qed

text \<open>\<open>ToString\<close> of the argument: \<open>decodeURIComponent(undefined)\<close> decodes the string
  \<open>"undefined"\<close>.\<close>

definition to_string :: "jstr option \<Rightarrow> jstr" where
  "to_string v = (case v of None \<Rightarrow> js ''undefined'' | Some s \<Rightarrow> s)"

text \<open>The value can be decoded: \<open>decodeURIComponent\<close> does not throw on it.\<close>

definition decodable :: "jstr option \<Rightarrow> bool" where
  "decodable ty = (case decodeURIComponent (to_string ty) of Inl e \<Rightarrow> False | Inr d \<Rightarrow> True)"

subsection \<open>The three regular expressions\<close>

text \<open>
  The patterns of \<open>discover\<close> are sequences of the following atoms: \<open>^\<close> (under the flag
  \<open>m\<close>), a literal character, the class \<open>[a-zA-Z]\<close>, the greedy \<open>.*\<close>, the lazy \<open>.*?\<close>,
  and the parentheses of the capture groups. All three carry the flags \<open>gmi\<close>. Each is a
  literal evaluated anew in every call of the callback, so \<open>lastIndex\<close> is 0 when \<open>exec\<close>
  runs.
\<close>

datatype atom = Bol | Chr cu | Letter | Dots | DotsLazy | Open nat | Close nat

text \<open>
  Under the flag \<open>i\<close> two code units match when their canonical forms (the upper-case
  mapping, which never takes a code unit from outside ASCII into ASCII) agree. The
  patterns contain ASCII characters only, so the comparison is the one of ASCII without
  case, and \<open>[a-zA-Z]\<close> is the set of the ASCII letters.
\<close>

definition ascii_upper :: "cu \<Rightarrow> cu" where
  "ascii_upper c = (if 0x61 \<le> c \<and> c \<le> 0x7A then c - 0x20 else c)"

definition isLetter :: "cu \<Rightarrow> bool" where
  "isLetter c = ((0x41 \<le> c \<and> c \<le> 0x5A) \<or> (0x61 \<le> c \<and> c \<le> 0x7A))"

text \<open>
  The backtracking matcher. \<open>prev\<close> is the code unit before the current position
  (\<open>None\<close> at the start of the input), \<open>s\<close> the input from the current position \<open>pos\<close>
  on, \<open>opn\<close> the positions where the groups were opened and \<open>caps\<close> the groups closed
  so far. A greedy \<open>.*\<close> first tries to take one more code unit and falls back to the
  rest of the pattern; the lazy one tries the rest of the pattern first. The result is the
  end of the match and the captures.
\<close>

fun rx_match ::
  "atom list \<Rightarrow> cu option \<Rightarrow> jstr \<Rightarrow> nat \<Rightarrow> (nat \<Rightarrow> nat) \<Rightarrow> (nat \<rightharpoonup> nat \<times> nat)
   \<Rightarrow> (nat \<times> (nat \<rightharpoonup> nat \<times> nat)) option" where
  "rx_match [] prev s pos opn caps = Some (pos, caps)"
| "rx_match (Bol # as) prev s pos opn caps =
     (case prev of
        None \<Rightarrow> rx_match as prev s pos opn caps
      | Some p \<Rightarrow> if isLineTerminator p then rx_match as prev s pos opn caps else None)"
| "rx_match (Chr c # as) prev s pos opn caps =
     (case s of
        [] \<Rightarrow> None
      | x # xs \<Rightarrow>
          if ascii_upper x = ascii_upper c then rx_match as (Some x) xs (Suc pos) opn caps
          else None)"
| "rx_match (Letter # as) prev s pos opn caps =
     (case s of
        [] \<Rightarrow> None
      | x # xs \<Rightarrow> if isLetter x then rx_match as (Some x) xs (Suc pos) opn caps else None)"
| "rx_match (Dots # as) prev s pos opn caps =
     (case s of
        [] \<Rightarrow> rx_match as prev s pos opn caps
      | x # xs \<Rightarrow>
          if isLineTerminator x then rx_match as prev s pos opn caps
          else (case rx_match (Dots # as) (Some x) xs (Suc pos) opn caps of
                  Some r \<Rightarrow> Some r
                | None \<Rightarrow> rx_match as prev s pos opn caps))"
| "rx_match (DotsLazy # as) prev s pos opn caps =
     (case rx_match as prev s pos opn caps of
        Some r \<Rightarrow> Some r
      | None \<Rightarrow>
          (case s of
             [] \<Rightarrow> None
           | x # xs \<Rightarrow>
               if isLineTerminator x then None
               else rx_match (DotsLazy # as) (Some x) xs (Suc pos) opn caps))"
| "rx_match (Open n # as) prev s pos opn caps = rx_match as prev s pos (opn(n := pos)) caps"
| "rx_match (Close n # as) prev s pos opn caps =
     rx_match as prev s pos opn (caps(n \<mapsto> (opn n, pos)))"

text \<open>\<open>exec\<close> tries the start positions from the left, the end of the input included.\<close>

fun rx_search ::
  "atom list \<Rightarrow> cu option \<Rightarrow> jstr \<Rightarrow> nat \<Rightarrow> (nat \<times> nat \<times> (nat \<rightharpoonup> nat \<times> nat)) option" where
  "rx_search rx prev [] pos =
     (case rx_match rx prev [] pos (\<lambda>n. 0) Map.empty of
        None \<Rightarrow> None
      | Some (e, caps) \<Rightarrow> Some (pos, e, caps))"
| "rx_search rx prev (x # xs) pos =
     (case rx_match rx prev (x # xs) pos (\<lambda>n. 0) Map.empty of
        None \<Rightarrow> rx_search rx (Some x) xs (Suc pos)
      | Some (e, caps) \<Rightarrow> Some (pos, e, caps))"

definition substring :: "jstr \<Rightarrow> nat \<Rightarrow> nat \<Rightarrow> jstr" where
  "substring s i j = take (j - i) (drop i s)"

text \<open>The array returned by \<open>exec\<close> (\<open>None\<close> for \<open>null\<close>): index 0 is the match, index
  \<open>n\<close> the text of group \<open>n\<close>, \<open>undefined\<close> for a group that did not take part.\<close>

definition rx_exec :: "atom list \<Rightarrow> jstr \<Rightarrow> (nat \<Rightarrow> jstr option) option" where
  "rx_exec rx s =
     (case rx_search rx None s 0 of
        None \<Rightarrow> None
      | Some (b, e, caps) \<Rightarrow>
          Some (\<lambda>n. if n = 0 then Some (substring s b e)
                    else (case caps n of None \<Rightarrow> None | Some (i, j) \<Rightarrow> Some (substring s i j))))"

text \<open>\<open>/(^([a-zA-Z].*):\/\/)/gmi\<close>\<close>

definition rx_type :: "atom list" where
  "rx_type = [Open 1, Bol, Open 2, Letter, Dots, Close 2, Chr 0x3A, Chr 0x2F, Chr 0x2F, Close 1]"

text \<open>\<open>/(usb:\/\/)(.*)(\/)(.*)(\?)(.*)/gmi\<close>\<close>

definition rx_usb :: "atom list" where
  "rx_usb =
     [Open 1, Chr 0x75, Chr 0x73, Chr 0x62, Chr 0x3A, Chr 0x2F, Chr 0x2F, Close 1,
      Open 2, Dots, Close 2, Open 3, Chr 0x2F, Close 3, Open 4, Dots, Close 4,
      Open 5, Chr 0x3F, Close 5, Open 6, Dots, Close 6]"

text \<open>\<open>/\/\/(.*?)\._/gmi\<close>\<close>

definition rx_network :: "atom list" where
  "rx_network = [Chr 0x2F, Chr 0x2F, Open 1, DotsLazy, Close 1, Chr 0x2E, Chr 0x5F]"

subsection \<open>Classification of one device URI\<close>

text \<open>The object \<open>params\<close> given to the constructor \<open>InstallablePrinter\<close>; \<open>uri\<close> is
  \<open>parts[1]\<close>, which is \<open>undefined\<close> for a line of one token.\<close>

record params =
  uri :: "jstr option"
  uri_pretty :: jstr
  protocol :: jstr
  model :: jstr

text \<open>A string is truthy when it is not empty; \<open>undefined\<close> is falsy.\<close>

definition truthy :: "jstr option \<Rightarrow> bool" where
  "truthy v = (case v of None \<Rightarrow> False | Some t \<Rightarrow> t \<noteq> [])"

text \<open>The string in a value known to be truthy.\<close>

definition text_of :: "jstr option \<Rightarrow> jstr" where
  "text_of v = (case v of None \<Rightarrow> [] | Some t \<Rightarrow> t)"

text \<open>
  The body of the callback of \<open>lines.forEach\<close> from \<open>const uri = type\<close> to the object
  \<open>params\<close>: decode, read the connection type with \<open>rx_type\<close>, and the model with
  \<open>rx_usb\<close> when the connection type is exactly \<open>usb\<close>, with \<open>rx_network\<close> otherwise.
  The only exception is the \<open>URIError\<close> of \<open>decodeURIComponent\<close>.
\<close>

definition classify :: "jstr option \<Rightarrow> error + params" where
  "classify ty =
     (case decodeURIComponent (to_string ty) of
        Inl e \<Rightarrow> Inl e
      | Inr uri_decoded \<Rightarrow>
          (let connection_type =
                 (case rx_exec rx_type uri_decoded of
                    None \<Rightarrow> []
                  | Some regexed_type \<Rightarrow>
                      if truthy (regexed_type 2) then text_of (regexed_type 2) else []);
               mdl =
                 (if connection_type = js ''usb'' then
                    (case rx_exec rx_usb uri_decoded of
                       None \<Rightarrow> js ''unknown''
                     | Some regexed_usb \<Rightarrow>
                         if truthy (regexed_usb 2) \<and> truthy (regexed_usb 4)
                         then text_of (regexed_usb 2) @ js '' ''
                              @ text_of (regexed_usb 4)
                         else js ''unknown'')
                  else
                    (case rx_exec rx_network uri_decoded of
                       None \<Rightarrow> js ''unknown''
                     | Some regexed_network \<Rightarrow>
                         if truthy (regexed_network 1) then text_of (regexed_network 1)
                         else js ''unknown''))
           in Inr \<lparr>uri = ty, uri_pretty = uri_decoded, protocol = connection_type,
                   model = mdl\<rparr>))"

subsection \<open>The answer object and \<open>discover\<close>\<close>

definition IGNORED_DEVICES :: "jstr list" where
  "IGNORED_DEVICES =
     [js ''http'', js ''https'', js ''ipp'', js ''ipps'', js ''lpd'', js ''smb'', js ''socket'',
      js ''fax'', js ''canonoipnets2'', js ''cnips2'', js ''epsonfax'', js ''hpfax'']"

text \<open>
  The object \<open>answer\<close> starts as \<open>{}\<close>. \<open>answer[key]\<close> is an array exactly when the
  callback has stored one under \<open>key\<close>: what an object inherits is never an array. The
  key \<open>__proto__\<close> is the one key that does not become a property of the object: it is
  an accessor, the assignment \<open>answer['__proto__'] = []\<close> makes the new array the
  prototype of \<open>answer\<close>, and reading \<open>answer['__proto__']\<close> yields that array again.
  So \<open>own\<close> holds the properties of the object, and \<open>proto\<close> the array stored through
  \<open>__proto__\<close>, if any.
\<close>

record 'd answer =
  own :: "jstr \<rightharpoonup> 'd list"
  proto :: "'d list option"

definition empty_answer :: "'d answer" where
  "empty_answer = \<lparr>own = Map.empty, proto = None\<rparr>"

text \<open>\<open>answer[key]\<close> when it is an array, \<open>None\<close> when it is not.\<close>

definition answer_get :: "'d answer \<Rightarrow> jstr \<Rightarrow> 'd list option" where
  "answer_get a key = (if key = js ''__proto__'' then proto a else own a key)"

text \<open>\<open>answer[key] = ds\<close>\<close>

definition answer_set :: "'d answer \<Rightarrow> jstr \<Rightarrow> 'd list \<Rightarrow> 'd answer" where
  "answer_set a key ds =
     (if key = js ''__proto__'' then a\<lparr>proto := Some ds\<rparr> else a\<lparr>own := (own a)(key \<mapsto> ds)\<rparr>)"

text \<open>
  The callback of \<open>lines.forEach\<close>. \<open>parts = item.split(' ')\<close>, \<open>protocol = parts[0]\<close>
  and \<open>type = parts[1]\<close>, which is \<open>undefined\<close> for a line of one token. The line is
  skipped when \<open>type\<close>, the second token, is in the ignore list
  (\<open>IGNORED_DEVICES.includes(type)\<close>); otherwise the device made from \<open>type\<close> is pushed
  on \<open>answer[protocol]\<close>, an array created when there is none. The class
  \<open>InstallablePrinter\<close> (module \<open>./installable\<close>) is not among the sources: its
  constructor is the parameter \<open>mk\<close>.
\<close>

definition line_protocol :: "jstr \<Rightarrow> jstr" where
  "line_protocol item = (case split_on 0x20 item of [] \<Rightarrow> [] | p0 # _ \<Rightarrow> p0)"

definition line_type :: "jstr \<Rightarrow> jstr option" where
  "line_type item = at (split_on 0x20 item) 1"

definition ignored :: "jstr option \<Rightarrow> bool" where
  "ignored ty = (case ty of None \<Rightarrow> False | Some t \<Rightarrow> t \<in> set IGNORED_DEVICES)"

definition discover_line :: "(params \<Rightarrow> 'd) \<Rightarrow> 'd answer \<Rightarrow> jstr \<Rightarrow> error + 'd answer" where
  "discover_line mk a item =
     (let ty = line_type item; key = line_protocol item
      in if ignored ty then Inr a
         else (case classify ty of
                 Inl e \<Rightarrow> Inl e
               | Inr p \<Rightarrow>
                   Inr (answer_set a key
                          ((case answer_get a key of None \<Rightarrow> [] | Some ds \<Rightarrow> ds) @ [mk p]))))"

text \<open>\<open>lines.forEach(item => ...)\<close>: an exception thrown by the callback ends the loop and
  \<open>discover\<close>.\<close>

fun forEach_line :: "(params \<Rightarrow> 'd) \<Rightarrow> 'd answer \<Rightarrow> jstr list \<Rightarrow> error + 'd answer" where
  "forEach_line mk a [] = Inr a"
| "forEach_line mk a (item # lines) =
     (case discover_line mk a item of Inl e \<Rightarrow> Inl e | Inr a' \<Rightarrow> forEach_line mk a' lines)"

text \<open>The lines of the command output after
  \<open>lines.map(line => line && line.trim()).filter(line => Boolean(line))\<close>.\<close>

definition device_lines :: "jstr \<Rightarrow> jstr list" where
  "device_lines text = filter (\<lambda>line. line \<noteq> []) (map trim (split_lines text))"

definition discover :: "(params \<Rightarrow> 'd) \<Rightarrow> exec_outcome \<Rightarrow> error + 'd answer" where
  "discover mk out =
     (case out of
        Rejected \<Rightarrow> Inl ExecError
      | Resolved result \<Rightarrow> forEach_line mk empty_answer (device_lines (stdout result)))"

text \<open>The array under a key of the mapping returned by \<open>discover\<close>.\<close>

definition devices_under :: "jstr \<Rightarrow> error + 'd answer \<Rightarrow> error + 'd list option" where
  "devices_under key res = (case res of Inl e \<Rightarrow> Inl e | Inr a \<Rightarrow> Inr (answer_get a key))"

section \<open>Sample inputs\<close>

text \<open>The status text of the specification's first scenario, and the same printer in the
  form \<open>lpstat -s\<close> prints it.\<close>

definition scenario1 :: jstr where
  "scenario1 =
     js ''system default destination: HP_LaserJet'' @ [0x0A]
     @ js ''printer HP_LaserJet is idle.  enabled since ...: ipp://host/printers/HP_LaserJet''
     @ [0x0A]"

definition device_for_text :: jstr where
  "device_for_text =
     js ''system default destination: HP_LaserJet'' @ [0x0A]
     @ js ''device for HP_LaserJet: ipp://host/printers/HP_LaserJet'' @ [0x0A]"

text \<open>A status text whose second line has no colon.\<close>

definition no_colon_text :: jstr where
  "no_colon_text = js ''system default destination: lp0'' @ [0x0A] @ js ''device for lp0''"

text \<open>A catalog of one driver: four lines, without a line break after the last.\<close>

definition four_lines :: jstr where
  "four_lines =
     js ''name = lsb/usr/hp.ppd'' @ [0x0A] @ js ''natural_language = en'' @ [0x0A]
     @ js ''make-and-model = HP LaserJet'' @ [0x0A] @ js ''device-id = MFG:HP;MDL:LaserJet;''"

definition hp_driver :: "DriverRecord obj" where
  "hp_driver =
     (0, \<lparr>driver = js ''lsb/usr/hp.ppd'', lang = js ''en'', makeAndModel = js ''HP LaserJet'',
          id_attr = js ''MFG:HP;MDL:LaserJet;''\<rparr>)"

text \<open>The lines of a catalog of one driver followed by three lines of a cut-off entry, and
  of a catalog of two drivers.\<close>

definition seven_lines :: "jstr list" where
  "seven_lines =
     [js ''name = lsb/usr/hp.ppd'', js ''natural_language = en'',
      js ''make-and-model = HP LaserJet'', js ''device-id = MFG:HP;MDL:LaserJet;'',
      js ''Model:'', js ''truncated'', js ''entry'']"

definition eight_lines :: "jstr list" where
  "eight_lines =
     [js ''name = lsb/usr/hp.ppd'', js ''natural_language = en'',
      js ''make-and-model = HP LaserJet'', js ''device-id = MFG:HP;MDL:LaserJet;'',
      js ''name = lsb/usr/canon.ppd'', js ''natural_language = en'',
      js ''make-and-model = Canon BJC-30'', js ''device-id = MFG:Canon;MDL:BJC-30;'']"

definition canon_driver :: "DriverRecord obj" where
  "canon_driver =
     (1, \<lparr>driver = js ''lsb/usr/canon.ppd'', lang = js ''en'', makeAndModel = js ''Canon BJC-30'',
          id_attr = js ''MFG:Canon;MDL:BJC-30;''\<rparr>)"

text \<open>Two behaviours of the fuzzy filter: every driver of the catalog is a hit, in catalog
  order; and nothing is a hit (what \<open>fuzzy.filter\<close> returns on an empty catalog).\<close>

definition all_hits :: "unit fuzzy_filter" where
  "all_hits pattern drivers = map (\<lambda>d. \<lparr>original = d\<rparr>) drivers"

definition no_hits :: "unit fuzzy_filter" where
  "no_hits pattern drivers = []"

text \<open>A filter for which the pattern \<open>HP\<close> hits every driver of the catalog and any other
  pattern hits none.\<close>

definition hp_only :: "unit fuzzy_filter" where
  "hp_only pattern drivers = (if pattern = js ''HP'' then map (\<lambda>d. \<lparr>original = d\<rparr>) drivers else [])"

text \<open>Outputs of the discovery command: a USB printer followed by a line that names a
  backend only; the first of these lines alone; the USB printer followed by a line whose
  escape \<open>%ZZ\<close> cannot be decoded; and the two lines followed by a line whose second
  token matches no pattern.\<close>

definition two_lines :: jstr where
  "two_lines =
     js ''direct usb://HP/LaserJet%20100?serial=A1'' @ [0x0A] @ js ''network socket'' @ [0x0A]"

definition one_line :: jstr where
  "one_line = js ''direct usb://HP/LaserJet%20100?serial=A1'' @ [0x0A]"

definition bad_escape_text :: jstr where
  "bad_escape_text =
     js ''direct usb://HP/LaserJet%20100?serial=A1'' @ [0x0A]
     @ js ''network dnssd://Office%ZZ._ipp._tcp.local./'' @ [0x0A]"

definition mixed_text :: jstr where
  "mixed_text =
     js ''direct usb://HP/LaserJet%20100?serial=A1'' @ [0x0A] @ js ''network socket'' @ [0x0A]
     @ js ''serial garbage'' @ [0x0A]"

text \<open>The parameters of the device read from the first of these lines.\<close>

definition hp_params :: params where
  "hp_params =
     \<lparr>uri = Some (js ''usb://HP/LaserJet%20100?serial=A1''),
      uri_pretty = js ''usb://HP/LaserJet 100?serial=A1'', protocol = js ''usb'',
      model = js ''HP LaserJet 100''\<rparr>"

section \<open>Installed printers: properties\<close>

lemma split_colon_no_colon: "0x3A \<notin> set l \<Longrightarrow> split_colon l = [Some l]"
proof -
  assume "0x3A \<notin> set l"
  then have d: "dropWhile (\<lambda>c. c \<noteq> 0x3A) l = []" by auto
  show ?thesis by (subst split_colon.simps) (simp only: d list.case)
qed

lemma parse_line_no_colon: "0x3A \<notin> set l \<Longrightarrow> parse_line d l = Inl TypeError"
  by (simp add: parse_line_def split_colon_no_colon)

lemma parse_line_error: "parse_line d l = Inl e \<Longrightarrow> e = TypeError"
  by (auto simp: parse_line_def Let_def split: list.splits option.splits)

lemma map_throwing_error:
  assumes "\<And>x e. f x = Inl e \<Longrightarrow> e = err" and "x \<in> set xs" and "f x = Inl err"
  shows "map_throwing f xs = Inl err"
  using assms(2,3)
proof (induction xs)
  case Nil
  then show ?case by simp
next
  case (Cons y ys)
  show ?case
  proof (cases "f y")
    case (Inl e)
    with assms(1) show ?thesis by auto
  next
    case (Inr v)
    with Cons have "x \<in> set ys" by auto
    with Cons Inr show ?thesis by simp
  qed
qed

lemma list_internal_no_colon:
  assumes "stderr r = []"
    and "filter (\<lambda>l. l \<noteq> []) (split_lines (stdout r)) = first # lines"
    and "l \<in> set lines" and "0x3A \<notin> set l"
  shows "list_internal (Resolved r) = Inl TypeError"
proof -
  have ne: "stdout r \<noteq> []" using assms(2) by auto
  have "map_throwing (parse_line d) lines = Inl TypeError" for d
    by (rule map_throwing_error [where x = l])
       (use assms parse_line_error parse_line_no_colon in auto)
  then show ?thesis using assms(1,2) ne by (simp add: list_internal_def)
qed

text \<open>
  Claim C3, as stated, fails: when the promise of the command executor is rejected (the
  command could not be run or ended with a failure status), \<open>await exec(cmd)\<close> throws,
  nothing in \<open>_list\<close> catches it, and \<open>list\<close> and \<open>get\<close> end with that failure instead of
  an empty sequence.
\<close>

theorem list_rejected_counterexample:
  "list id Rejected = Inl ExecError \<and> get id id Rejected None = Inl ExecError"
  by (simp add: list_def get_def list_internal_def)

text \<open>
  Claim C3, amended: when the command executor returns and the command wrote to its error
  stream or produced no output, \<open>list\<close> yields the empty sequence and \<open>get\<close> yields no
  printer, and neither fails.
\<close>

theorem list_empty_on_stderr_or_no_output:
  "stderr r \<noteq> [] \<or> stdout r = [] \<Longrightarrow>
   list mk (Resolved r) = Inr [] \<and> get mk lower (Resolved r) nm = Inr None"
  by (auto simp: list_def get_def list_internal_def)

text \<open>Witness for C3: the command printed an error message and nothing else.\<close>

theorem list_empty_on_stderr_or_no_output_witness:
  "stderr \<lparr>stdout = [], stderr = js ''lpstat: error''\<rparr> \<noteq> []
   \<and> list id (Resolved \<lparr>stdout = [], stderr = js ''lpstat: error''\<rparr>) = Inr []
   \<and> get id id (Resolved \<lparr>stdout = [], stderr = js ''lpstat: error''\<rparr>) None = Inr None"
proof -
  have h: "stderr \<lparr>stdout = [], stderr = js ''lpstat: error''\<rparr> \<noteq> []"
    by (simp add: js_def)
  then have "stderr \<lparr>stdout = [], stderr = js ''lpstat: error''\<rparr> \<noteq> []
      \<or> stdout \<lparr>stdout = [], stderr = js ''lpstat: error''\<rparr> = []" ..
  from list_empty_on_stderr_or_no_output [OF this, of id id None] h
  show ?thesis by blast
qed

text \<open>
  Claim C5, as stated, fails: on the status text of scenario 1, \<open>list\<close> does not yield the
  record with name \<open>HP_LaserJet\<close> and \<open>isDefault\<close> true. The first colon of the second
  line follows the three dots, so the left part ends in \<open>...\<close>.
\<close>

theorem scenario1_counterexample:
  "list id (Resolved \<lparr>stdout = scenario1, stderr = []\<rparr>)
     \<noteq> Inr [\<lparr>name = js ''HP_LaserJet'', connection = js ''ipp://host/printers/HP_LaserJet'',
               isDefault = True\<rparr>]"
  by code_simp

text \<open>
  Claim C5, amended: on the status text of scenario 1, \<open>list\<close> yields exactly one
  PrinterRecord, with name \<open>...\<close> (the text after the last space before the first colon of
  the line), connection \<open>ipp://host/printers/HP_LaserJet\<close> and \<open>isDefault\<close> false.
\<close>

theorem scenario1_list:
  "list id (Resolved \<lparr>stdout = scenario1, stderr = []\<rparr>)
     = Inr [\<lparr>name = js ''...'', connection = js ''ipp://host/printers/HP_LaserJet'',
              isDefault = False\<rparr>]"
  by code_simp

text \<open>The record that scenario 1 expects is the one read from a line of the form
  \<open>device for HP_LaserJet: ipp://host/printers/HP_LaserJet\<close>.\<close>

lemma device_for_list:
  "list id (Resolved \<lparr>stdout = device_for_text, stderr = []\<rparr>)
     = Inr [\<lparr>name = js ''HP_LaserJet'', connection = js ''ipp://host/printers/HP_LaserJet'',
              isDefault = True\<rparr>]"
  by code_simp

text \<open>
  Claim C10: when the listing is parsed (the command wrote nothing to its error stream)
  and some retained line after the first contains no colon, \<open>parts[1]\<close> is \<open>undefined\<close>
  for that line and \<open>list\<close> and \<open>get\<close> fail with a \<open>TypeError\<close> instead of returning
  records.
\<close>

theorem list_get_TypeError_without_colon:
  assumes "stderr r = []"
    and "filter (\<lambda>l. l \<noteq> []) (split_lines (stdout r)) = first # lines"
    and "l \<in> set lines" and "0x3A \<notin> set l"
  shows "list mk (Resolved r) = Inl TypeError \<and> get mk lower (Resolved r) nm = Inl TypeError"
  using list_internal_no_colon [OF assms] by (simp add: list_def get_def)

text \<open>Witness for C10: the second line is \<open>device for lp0\<close>, without a colon.\<close>

theorem list_get_TypeError_without_colon_witness:
  "stderr \<lparr>stdout = no_colon_text, stderr = []\<rparr> = []
   \<and> filter (\<lambda>l. l \<noteq> []) (split_lines (stdout \<lparr>stdout = no_colon_text, stderr = []\<rparr>))
       = js ''system default destination: lp0'' # [js ''device for lp0'']
   \<and> js ''device for lp0'' \<in> set [js ''device for lp0'']
   \<and> 0x3A \<notin> set (js ''device for lp0'')
   \<and> list id (Resolved \<lparr>stdout = no_colon_text, stderr = []\<rparr>) = Inl TypeError
   \<and> get id id (Resolved \<lparr>stdout = no_colon_text, stderr = []\<rparr>) None = Inl TypeError"
proof -
  have a: "stderr \<lparr>stdout = no_colon_text, stderr = []\<rparr> = []" by simp
  have b: "filter (\<lambda>l. l \<noteq> []) (split_lines (stdout \<lparr>stdout = no_colon_text, stderr = []\<rparr>))
       = js ''system default destination: lp0'' # [js ''device for lp0'']"
    by (simp add: no_colon_text_def js_def isLineBreak_def)
  have c: "js ''device for lp0'' \<in> set [js ''device for lp0'']" by simp
  have d: "0x3A \<notin> set (js ''device for lp0'')" by (simp add: js_def)
  from list_get_TypeError_without_colon [OF a b c d, of id id None] a b c d
  show ?thesis by blast
qed

section \<open>The driver catalog and the fuzzy matcher: properties\<close>

lemma split_on_nonempty: "split_on d s \<noteq> []"
  by (induction s) (auto split: list.splits)

lemma join_space_Cons: "join_space ((c # l) # ls) = c # join_space (l # ls)"
  by (cases ls) auto

text \<open>Joining the tokens of a slug with spaces gives the slug back: the largest window
  is the slug itself.\<close>

lemma join_split: "join_space (split_on 0x20 s) = s"
proof (induction s)
  case Nil
  show ?case by simp
next
  case (Cons c cs)
  obtain l ls where sp: "split_on 0x20 cs = l # ls"
    using split_on_nonempty [of "0x20" cs] by (cases "split_on 0x20 cs") auto
  with Cons show ?case by (auto simp: join_space_Cons)
qed

lemma length_slice0: "0 \<le> e \<Longrightarrow> int (length (slice0 xs e)) \<le> e"
  by (auto simp: slice0_def Let_def)

text \<open>The loop reads \<open>(n - 1) div 4\<close> drivers from \<open>n\<close> lines: \<open>k\<close> from \<open>4k + 1\<close>
  lines, one fewer from \<open>4k\<close> lines.\<close>

lemma read_drivers_count:
  "read_drivers k lines = Inr ds \<Longrightarrow> length ds = (length lines - 1) div 4"
proof (induction k lines arbitrary: ds rule: read_drivers.induct)
  case (1 k p0 p1 p2 p3 l lines)
  from "1.prems" obtain d la mm i ds' where
    f: "field_value p0 = Inr d" "field_value p1 = Inr la" "field_value p2 = Inr mm"
       "field_value p3 = Inr i"
    and ds': "read_drivers (Suc k) (l # lines) = Inr ds'" and len: "length ds = Suc (length ds')"
    by (auto split: sum.splits)
  from "1.IH" [OF f ds'] have "length ds' = length lines div 4" by simp
  with len show ?case by simp
qed simp_all

text \<open>
  Claim C2, as stated, fails: a catalog of exactly four lines, with no line feed after the
  last, is a complete group of four, and no DriverRecord is returned for it. The loop
  runs \<open>while (lines.length > 4)\<close>, on the strings that \<open>split('\n')\<close> yields.
\<close>

theorem catalog_of_four_lines_counterexample:
  "findDrivers no_hits (Resolved \<lparr>stdout = four_lines, stderr = []\<rparr>) NoSlugs None = Inr []"
  by code_simp

text \<open>The same four lines followed by a line break split into five strings, and the
  driver is read.\<close>

lemma catalog_with_final_newline:
  "findDrivers no_hits (Resolved \<lparr>stdout = four_lines @ [0x0A], stderr = []\<rparr>) NoSlugs None
     = Inr [Some hp_driver]"
  by code_simp

lemma split_on_line: "d \<notin> set l \<Longrightarrow> split_on d (l @ d # rest) = l # split_on d rest"
proof (induction l)
  case Nil
  show ?case by simp
next
  case (Cons c l)
  then have "c \<noteq> d" and "split_on d (l @ d # rest) = l # split_on d rest" by auto
  then show ?case by simp
qed

lemma split_on_unlines:
  "\<forall>l \<in> set ls. 0x0A \<notin> set l \<Longrightarrow> split_on 0x0A (unlines ls) = ls @ [[]]"
  by (induction ls) (simp_all add: unlines_def split_on_line)

lemma split_on_two_parts: "d \<in> set s \<Longrightarrow> 2 \<le> length (split_on d s)"
proof (induction s)
  case Nil
  then show ?case by simp
next
  case (Cons c s)
  obtain l ls where "split_on d s = l # ls"
    using split_on_nonempty [of d s] by (cases "split_on d s") auto
  with Cons show ?case by (cases "c = d") auto
qed

lemma field_value_ok: "0x3D \<in> set l \<Longrightarrow> \<exists>v. field_value l = Inr v"
  using split_on_two_parts [of "0x3D" l] by (auto simp: field_value_def at_def)

lemma read_drivers_short: "length xs \<le> 4 \<Longrightarrow> read_drivers k xs = Inr []"
  by (induction k xs rule: read_drivers.induct) simp_all

lemma read_drivers_group:
  assumes "field_value p0 = Inr v0" and "field_value p1 = Inr v1"
    and "field_value p2 = Inr v2" and "field_value p3 = Inr v3"
    and "read_drivers (Suc k) (rest @ [x]) = Inr ds"
  shows "read_drivers k (p0 # p1 # p2 # p3 # rest @ [x])
           = Inr ((k, \<lparr>driver = v0, lang = v1, makeAndModel = v2, id_attr = v3\<rparr>) # ds)"
  using assms by (cases rest) simp_all

lemma read_drivers_terminated:
  assumes "\<forall>j < 4 * (length ls div 4). 0x3D \<in> set (ls ! j)"
  shows "\<exists>ds. read_drivers k (ls @ [[]]) = Inr ds \<and> length ds = length ls div 4
           \<and> (\<forall>i < length ds. fst (ds ! i) = k + i \<and> group_read ls i (snd (ds ! i)))"
  using assms
proof (induction "length ls" arbitrary: ls k rule: less_induct)
  case less
  show ?case
  proof (cases "length ls < 4")
    case True
    then have "read_drivers k (ls @ [[]]) = Inr []" by (simp add: read_drivers_short)
    with True show ?thesis by simp
  next
    case False
    then obtain p0 p1 p2 p3 rest where ls: "ls = p0 # p1 # p2 # p3 # rest"
      by (cases ls; cases "tl ls"; cases "tl (tl ls)"; cases "tl (tl (tl ls))") auto
    have d: "length ls div 4 = Suc (length rest div 4)" using ls by simp
    have eq: "0x3D \<in> set (ls ! j)" if "j < 4" for j using less.prems d that by simp
    from eq [of 0] eq [of 1] eq [of 2] eq [of 3] ls
    obtain v0 v1 v2 v3 where v: "field_value p0 = Inr v0" "field_value p1 = Inr v1"
      "field_value p2 = Inr v2" "field_value p3 = Inr v3"
      using field_value_ok [of p0] field_value_ok [of p1] field_value_ok [of p2]
        field_value_ok [of p3] by auto
    have "\<forall>j < 4 * (length rest div 4). 0x3D \<in> set (rest ! j)"
    proof (intro allI impI)
      fix j assume "j < 4 * (length rest div 4)"
      then have "j + 4 < 4 * (length ls div 4)" using d by simp
      with less.prems have "0x3D \<in> set (ls ! (j + 4))" by blast
      then show "0x3D \<in> set (rest ! j)" using ls by simp
    qed
    moreover have "length rest < length ls" using ls by simp
    ultimately obtain ds' where ds': "read_drivers (Suc k) (rest @ [[]]) = Inr ds'"
      "length ds' = length rest div 4"
      "\<forall>i < length ds'. fst (ds' ! i) = Suc k + i \<and> group_read rest i (snd (ds' ! i))"
      using less.hyps [of rest "Suc k"] by blast
    let ?r = "\<lparr>driver = v0, lang = v1, makeAndModel = v2, id_attr = v3\<rparr>"
    let ?ds = "(k, ?r) # ds'"
    have run: "read_drivers k (ls @ [[]]) = Inr ?ds"
      using read_drivers_group [OF v ds'(1)] ls by simp
    have len: "length ?ds = length ls div 4" using d ds'(2) by simp
    have each: "fst (?ds ! i) = k + i \<and> group_read ls i (snd (?ds ! i))" if "i < length ?ds" for i
    proof (cases i)
      case 0
      with ls v show ?thesis by (simp add: group_read_def)
    next
      case (Suc i')
      with that have "i' < length ds'" by simp
      with ds'(3) have "fst (ds' ! i') = Suc k + i'" "group_read rest i' (snd (ds' ! i'))" by auto
      moreover have shift: "ls ! (4 * i + c) = rest ! (4 * i' + c)" for c
      proof -
        have "4 * i + c = Suc (Suc (Suc (Suc (4 * i' + c))))" using Suc by simp
        then show ?thesis unfolding ls by (simp only: nth_Cons_Suc)
      qed
      moreover have shift0: "ls ! (4 * i) = rest ! (4 * i')" using shift [of 0] by simp
      have "group_read ls i r = group_read rest i' r" for r
        unfolding group_read_def shift shift0 ..
      ultimately show ?thesis using Suc by simp
    qed
    from run len each show ?thesis by blast
  qed
qed

text \<open>
  Claim C2, amended: on a text whose lines each end with a line feed, the loop consumes
  the lines four at a time, one DriverRecord per complete group in catalog order, and
  discards a remainder of fewer than four lines without error: when the lines of the
  complete groups each contain \<open>=\<close>, \<open>n\<close> lines give exactly \<open>n div 4\<close> records
  (\<open>k\<close> for \<open>4k\<close> lines), the \<open>i\<close>-th holding the values of the \<open>i\<close>-th group.
\<close>

theorem newline_terminated_catalog:
  assumes "\<forall>l \<in> set ls. 0x0A \<notin> set l"
    and "\<forall>j < 4 * (length ls div 4). 0x3D \<in> set (ls ! j)"
  shows "\<exists>ds. findDrivers ff (Resolved \<lparr>stdout = unlines ls, stderr = e\<rparr>) NoSlugs maxsize
               = Inr (map Some ds)
           \<and> length ds = length ls div 4
           \<and> (\<forall>i < length ds. fst (ds ! i) = i \<and> group_read ls i (snd (ds ! i)))"
proof -
  from read_drivers_terminated [OF assms(2), of 0] obtain ds where
    "read_drivers 0 (ls @ [[]]) = Inr ds" "length ds = length ls div 4"
    "\<forall>i < length ds. fst (ds ! i) = i \<and> group_read ls i (snd (ds ! i))" by auto
  then show ?thesis using split_on_unlines [OF assms(1)]
    by (auto simp: findDrivers_def falsy_def)
qed

text \<open>Witness for C2: one complete group followed by three lines without \<open>=\<close>; the
  driver of the group is read and the remainder is dropped.\<close>

theorem newline_terminated_catalog_witness:
  "list_all (\<lambda>l. 0x0A \<notin> set l) seven_lines
   \<and> list_all (\<lambda>j. 0x3D \<in> set (seven_lines ! j)) [0 ..< 4 * (length seven_lines div 4)]
   \<and> (\<exists>ds. findDrivers no_hits (Resolved \<lparr>stdout = unlines seven_lines, stderr = []\<rparr>) NoSlugs None
               = Inr (map Some ds)
           \<and> length ds = length seven_lines div 4
           \<and> (\<forall>i < length ds. fst (ds ! i) = i \<and> group_read seven_lines i (snd (ds ! i))))
   \<and> findDrivers no_hits (Resolved \<lparr>stdout = unlines seven_lines, stderr = []\<rparr>) NoSlugs None
       = Inr [Some hp_driver]"
proof -
  have a: "list_all (\<lambda>l. 0x0A \<notin> set l) seven_lines" by code_simp
  have b: "list_all (\<lambda>j. 0x3D \<in> set (seven_lines ! j)) [0 ..< 4 * (length seven_lines div 4)]"
    by code_simp
  have a': "\<forall>l \<in> set seven_lines. 0x0A \<notin> set l" using a by (simp add: list_all_iff)
  have b': "\<forall>j < 4 * (length seven_lines div 4). 0x3D \<in> set (seven_lines ! j)"
    using b by (simp add: list_all_iff)
  note main = newline_terminated_catalog [OF a' b', of no_hits "[]" None]
  have c: "findDrivers no_hits (Resolved \<lparr>stdout = unlines seven_lines, stderr = []\<rparr>) NoSlugs None
       = Inr [Some hp_driver]"
    by code_simp
  from a b main c show ?thesis by blast
qed

text \<open>A slug none of whose windows has a hit yields \<open>undefined\<close>, and alone it makes
  the result an array of one \<open>undefined\<close>.\<close>

lemma try_windows_no_hits:
  "(\<forall>i. ff (join_space (take i tokens)) drivers = []) \<Longrightarrow>
   fst (try_windows ff drivers tokens n) = None"
  by (induction n) (auto simp: Let_def split: prod.splits)

lemma slug_without_hits_general:
  assumes "\<forall>pattern. ff pattern drivers = []"
    and "read_drivers 0 (split_on 0x0A (stdout r)) = Inr drivers"
    and "slug \<noteq> []"
  shows "findDrivers ff (Resolved r) (OneSlug slug) None = Inr [None]"
proof -
  have "fst (match_slug ff drivers slug) = None"
    using assms(1) by (simp add: match_slug_def Let_def try_windows_no_hits)
  with assms(2,3) show ?thesis
    by (simp add: findDrivers_def falsy_def arrify_def lodash_flatten_def lodash_union_def
        slice0_def default_maxsize_def same_value_def)
qed

text \<open>Every element of the result that is a driver is a hit of one of the slugs.\<close>

lemma set_uniq_into: "set (uniq_into seen xs) \<subseteq> set seen \<union> set xs"
proof (induction xs arbitrary: seen)
  case Nil
  show ?case by simp
next
  case (Cons x xs)
  from Cons [of seen] Cons [of "seen @ [x]"] show ?case by auto
qed

lemma set_slice0: "set (slice0 xs e) \<subseteq> set xs"
  by (auto simp: slice0_def Let_def dest: in_set_takeD)

lemma defined_results_are_hits:
  assumes "findDrivers ff (Resolved r) slugs maxsize = Inr res" and "\<not> falsy slugs"
    and "Some d \<in> set res"
  shows "\<exists>drivers slug hits. read_drivers 0 (split_on 0x0A (stdout r)) = Inr drivers
           \<and> slug \<in> set (arrify slugs) \<and> fst (match_slug ff drivers slug) = Some hits
           \<and> d \<in> set hits"
proof -
  from assms(1) obtain drivers where dr: "read_drivers 0 (split_on 0x0A (stdout r)) = Inr drivers"
    by (auto simp: findDrivers_def split: sum.splits)
  let ?items = "map (\<lambda>slug. fst (match_slug ff drivers slug)) (arrify slugs)"
  from assms dr have "Some d \<in> set (slice0 (lodash_union (lodash_flatten ?items)) (default_maxsize maxsize))"
    by (auto simp: findDrivers_def Let_def split: if_splits)
  then have "Some d \<in> set (lodash_flatten ?items)"
    using set_slice0 set_uniq_into [of "[]"] by (fastforce simp: lodash_union_def)
  then obtain slug hits where "slug \<in> set (arrify slugs)"
    "fst (match_slug ff drivers slug) = Some hits" "d \<in> set hits"
    by (auto simp: lodash_flatten_def split: option.splits)
  with dr show ?thesis by blast
qed

text \<open>
  Claim C7 fails on the code, which is at fault: the callback of \<open>_.map(slugs, ...)\<close>
  ends without a \<open>return\<close> when no window has a hit, so the slug contributes the value
  \<open>undefined\<close>, which \<open>_.flatten\<close>, \<open>_.union\<close> and \<open>_.slice\<close> keep: the result for one
  slug without hits is an array of one \<open>undefined\<close>, not a DriverRecord.
\<close>

theorem slug_without_hits_yields_undefined:
  "findDrivers no_hits (Resolved \<lparr>stdout = [], stderr = []\<rparr>) (OneSlug (js ''zzz'')) None
     = Inr [None]"
  by code_simp

text \<open>
  Claim C8: when the full token sequence of a slug (which is the slug) has at least one
  hit, the value for the slug is exactly the drivers of these hits, in the order of the
  ranking, and the slug is the only pattern passed to the fuzzy filter.
\<close>

theorem full_window_match_is_result:
  assumes "ff slug drivers \<noteq> []"
  shows "match_slug ff drivers slug = (Some (map original (ff slug drivers)), [slug])"
proof -
  obtain n where n: "length (split_on 0x20 slug) = Suc n"
    using split_on_nonempty [of "0x20" slug] by (cases "split_on 0x20 slug") auto
  have "join_space (take (Suc n) (split_on 0x20 slug)) = slug"
    using n join_split [of slug] by (metis order_refl take_all)
  with n assms show ?thesis by (simp add: match_slug_def Let_def)
qed

text \<open>Witness for C8: the slug \<open>HP LaserJet\<close> against a catalog of one driver.\<close>

theorem full_window_match_is_result_witness:
  "all_hits (js ''HP LaserJet'') [hp_driver] \<noteq> []
   \<and> match_slug all_hits [hp_driver] (js ''HP LaserJet'')
       = (Some [hp_driver], [js ''HP LaserJet''])"
proof -
  have h: "all_hits (js ''HP LaserJet'') [hp_driver] \<noteq> []" by (simp add: all_hits_def)
  from full_window_match_is_result [of all_hits "js ''HP LaserJet''" "[hp_driver]", OF h] h
  show ?thesis by (simp add: all_hits_def)
qed

text \<open>
  Claim C9, as stated, fails: the supplied slug \<open>""\<close> is falsy, so the whole catalog of
  two drivers is returned under a cap of 1; and under the cap \<open>-1\<close>, which \<open>_.slice\<close>
  counts from the end of the array, the result has one element.
\<close>

theorem findDrivers_cap_counterexample:
  "findDrivers all_hits (Resolved \<lparr>stdout = unlines eight_lines, stderr = []\<rparr>) (OneSlug [])
       (Some 1) = Inr [Some hp_driver, Some canon_driver]
   \<and> \<not> int (length [Some hp_driver, Some canon_driver]) \<le> 1
   \<and> findDrivers all_hits (Resolved \<lparr>stdout = unlines eight_lines, stderr = []\<rparr>)
       (OneSlug (js ''HP'')) (Some (- 1)) = Inr [Some hp_driver]
   \<and> \<not> int (length [Some hp_driver]) \<le> - 1"
  by code_simp

text \<open>
  Claim C9, amended: when the argument \<open>slugs\<close> is truthy (a string that is not empty, or
  an array) and \<open>maxsize\<close> (10 when it is not given) is not negative, the sequence that
  \<open>findDrivers\<close> returns has at most \<open>maxsize\<close> elements.
\<close>

theorem findDrivers_length_le_maxsize:
  assumes "\<not> falsy slugs" and "0 \<le> default_maxsize maxsize"
    and "findDrivers ff out slugs maxsize = Inr res"
  shows "int (length res) \<le> default_maxsize maxsize"
  using assms
  by (auto simp: findDrivers_def Let_def length_slice0
           split: exec_outcome.splits sum.splits if_splits)

text \<open>Witness for C9: a catalog of two drivers and two slugs, one that hits both drivers
  and one without a hit. Under a cap of 5 the result has three elements; the cap of 1
  cuts it to one.\<close>

theorem findDrivers_length_le_maxsize_witness:
  "\<not> falsy (SlugArray [js ''HP'', js ''zzz''])
   \<and> 0 \<le> default_maxsize (Some 1)
   \<and> findDrivers hp_only (Resolved \<lparr>stdout = unlines eight_lines, stderr = []\<rparr>)
        (SlugArray [js ''HP'', js ''zzz'']) (Some 5)
       = Inr [Some hp_driver, Some canon_driver, None]
   \<and> findDrivers hp_only (Resolved \<lparr>stdout = unlines eight_lines, stderr = []\<rparr>)
        (SlugArray [js ''HP'', js ''zzz'']) (Some 1) = Inr [Some hp_driver]
   \<and> int (length [Some hp_driver]) \<le> default_maxsize (Some 1)"
proof -
  have a: "\<not> falsy (SlugArray [js ''HP'', js ''zzz''])" by (simp add: falsy_def)
  have b: "0 \<le> default_maxsize (Some 1)" by (simp add: default_maxsize_def)
  have c: "findDrivers hp_only (Resolved \<lparr>stdout = unlines eight_lines, stderr = []\<rparr>)
        (SlugArray [js ''HP'', js ''zzz'']) (Some 1) = Inr [Some hp_driver]"
    by code_simp
  have d: "findDrivers hp_only (Resolved \<lparr>stdout = unlines eight_lines, stderr = []\<rparr>)
        (SlugArray [js ''HP'', js ''zzz'']) (Some 5)
       = Inr [Some hp_driver, Some canon_driver, None]"
    by code_simp
  from findDrivers_length_le_maxsize [OF a b c] a b c d show ?thesis by blast
qed

section \<open>Device discovery: properties\<close>

subsection \<open>What a match of the patterns needs\<close>

lemma sublist_prefixI: "sublist xs (xs @ t)"
  unfolding sublist_def by (rule exI [of _ "[]"], rule exI [of _ t]) simp


lemma ascii_upper_nonletter:
  assumes "ascii_upper x = ascii_upper c" and "\<not> isLetter c"
  shows "x = c"
proof -
  have c: "ascii_upper c = c" using assms(2) by (auto simp: ascii_upper_def isLetter_def)
  show ?thesis
  proof (cases "0x61 \<le> x \<and> x \<le> 0x7A")
    case True
    then have "0x41 \<le> x - 0x20 \<and> x - 0x20 \<le> 0x5A" by unat_arith
    moreover have "x - 0x20 = c" using assms(1) c True by (simp add: ascii_upper_def)
    ultimately show ?thesis using assms(2) by (simp add: isLetter_def)
  next
    case False
    then show ?thesis using assms(1) c by (auto simp: ascii_upper_def split: if_splits)
  qed
qed

lemma rx_match_prefix_lits:
  "rx_match (map Chr ls @ post) prev s pos opn caps = Some r \<Longrightarrow>
   \<exists>xs t. s = xs @ t \<and> map ascii_upper xs = map ascii_upper ls"
proof (induction ls arbitrary: prev s pos)
  case Nil
  then show ?case by simp
next
  case (Cons c ls)
  from Cons.prems obtain x xs where s: "s = x # xs" and eq: "ascii_upper x = ascii_upper c"
    and m: "rx_match (map Chr ls @ post) (Some x) xs (Suc pos) opn caps = Some r"
    by (auto split: list.splits if_splits)
  from Cons.IH [OF m] obtain ys t where "xs = ys @ t" "map ascii_upper ys = map ascii_upper ls"
    by blast
  with s eq have "s = (x # ys) @ t \<and> map ascii_upper (x # ys) = map ascii_upper (c # ls)"
    by simp
  then show ?case by blast
qed

lemma rx_match_lits:
  "rx_match as prev s pos opn caps = Some r \<Longrightarrow> as = pre @ map Chr ls @ post \<Longrightarrow>
   \<exists>xs. sublist xs s \<and> map ascii_upper xs = map ascii_upper ls"
proof (induction as prev s pos opn caps arbitrary: pre rule: rx_match.induct)
  case (1 prev s pos opn caps)
  then show ?case by simp
next
  case (2 as prev s pos opn caps)
  show ?case
  proof (cases pre)
    case Nil
    with 2(4) have "ls = []" by (cases ls) auto
    then show ?thesis by simp
  next
    case (Cons a pre')
    with 2 show ?thesis by (auto split: option.splits if_splits)
  qed
next
  case (3 c as prev s pos opn caps)
  show ?case
  proof (cases pre)
    case Nil
    with 3(2,3) rx_match_prefix_lits [of ls post prev s pos opn caps r]
    obtain xs t where "s = xs @ t" "map ascii_upper xs = map ascii_upper ls" by auto
    then show ?thesis using sublist_prefixI [of xs t] by blast
  next
    case (Cons a pre')
    with 3(2,3) obtain x xs where s: "s = x # xs" and eq: "ascii_upper x = ascii_upper c"
      and m: "rx_match as (Some x) xs (Suc pos) opn caps = Some r"
      and as: "as = pre' @ map Chr ls @ post"
      by (auto split: list.splits if_splits)
    from 3(1) [OF s eq m as] obtain ys where "sublist ys xs" "map ascii_upper ys = map ascii_upper ls"
      by blast
    with s show ?thesis by (auto simp: sublist_Cons_right)
  qed
next
  case (4 as prev s pos opn caps)
  show ?case
  proof (cases pre)
    case Nil
    with 4(3) have "ls = []" by (cases ls) auto
    then show ?thesis by simp
  next
    case (Cons a pre')
    with 4(2,3) obtain x xs where s: "s = x # xs" and l: "isLetter x"
      and m: "rx_match as (Some x) xs (Suc pos) opn caps = Some r"
      and as: "as = pre' @ map Chr ls @ post"
      by (auto split: list.splits if_splits)
    from 4(1) [OF s l m as] obtain ys where "sublist ys xs" "map ascii_upper ys = map ascii_upper ls"
      by blast
    with s show ?thesis by (auto simp: sublist_Cons_right)
  qed
next
  case (5 as prev s pos opn caps)
  show ?case
  proof (cases pre)
    case Nil
    with "5.prems"(2) have "ls = []" by (cases ls) auto
    then show ?thesis by simp
  next
    case (Cons a pre')
    with "5.prems"(2) have as: "as = pre' @ map Chr ls @ post" by auto
    show ?thesis
    proof (cases s)
      case Nil
      with "5.prems"(1) have "rx_match as prev s pos opn caps = Some r" by simp
      from "5.IH"(1) [OF Nil this as] show ?thesis .
    next
      case s: (Cons x xs)
      show ?thesis
      proof (cases "isLineTerminator x")
        case True
        with "5.prems"(1) s have "rx_match as prev s pos opn caps = Some r" by simp
        from "5.IH"(2) [OF s True this as] show ?thesis .
      next
        case False
        show ?thesis
        proof (cases "rx_match (Dots # as) (Some x) xs (Suc pos) opn caps")
          case None
          with "5.prems"(1) s False have "rx_match as prev s pos opn caps = Some r" by simp
          from "5.IH"(4) [OF s False None this as] show ?thesis .
        next
          case (Some r')
          with "5.prems"(1) s False
          have r: "rx_match (Dots # as) (Some x) xs (Suc pos) opn caps = Some r" by simp
          have "Dots # as = (Dots # pre') @ map Chr ls @ post" using as by simp
          from "5.IH"(3) [OF s False r this]
          obtain ys where "sublist ys xs" "map ascii_upper ys = map ascii_upper ls" by blast
          with s show ?thesis by (auto simp: sublist_Cons_right)
        qed
      qed
    qed
  qed
next
  case (6 as prev s pos opn caps)
  show ?case
  proof (cases pre)
    case Nil
    with "6.prems"(2) have "ls = []" by (cases ls) auto
    then show ?thesis by simp
  next
    case (Cons a pre')
    with "6.prems"(2) have as: "as = pre' @ map Chr ls @ post" by auto
    show ?thesis
    proof (cases "rx_match as prev s pos opn caps")
      case (Some r')
      with "6.prems"(1) have "rx_match as prev s pos opn caps = Some r" by simp
      from "6.IH"(1) [OF this as] show ?thesis .
    next
      case None
      with "6.prems"(1) obtain x xs where s: "s = x # xs" and nl: "\<not> isLineTerminator x"
        and r: "rx_match (DotsLazy # as) (Some x) xs (Suc pos) opn caps = Some r"
        by (auto split: list.splits if_splits)
      have "DotsLazy # as = (DotsLazy # pre') @ map Chr ls @ post" using as by simp
      from "6.IH"(2) [OF None s nl r this]
      obtain ys where "sublist ys xs" "map ascii_upper ys = map ascii_upper ls" by blast
      with s show ?thesis by (auto simp: sublist_Cons_right)
    qed
  qed
next
  case (7 n as prev s pos opn caps)
  show ?case
  proof (cases pre)
    case Nil
    with "7.prems"(2) have "ls = []" by (cases ls) auto
    then show ?thesis by simp
  next
    case (Cons a pre')
    with "7.prems" have "rx_match as prev s pos (opn(n := pos)) caps = Some r"
      and "as = pre' @ map Chr ls @ post" by auto
    then show ?thesis by (rule "7.IH")
  qed
next
  case (8 n as prev s pos opn caps)
  show ?case
  proof (cases pre)
    case Nil
    with "8.prems"(2) have "ls = []" by (cases ls) auto
    then show ?thesis by simp
  next
    case (Cons a pre')
    with "8.prems" have "rx_match as prev s pos opn (caps(n \<mapsto> (opn n, pos))) = Some r"
      and "as = pre' @ map Chr ls @ post" by auto
    then show ?thesis by (rule "8.IH")
  qed
qed

lemma rx_search_match:
  "rx_search rx prev s pos = Some (b, e, caps) \<Longrightarrow>
   \<exists>k prev'. k \<le> length s \<and> b = pos + k
     \<and> rx_match rx prev' (drop k s) b (\<lambda>n. 0) Map.empty = Some (e, caps)"
proof (induction s arbitrary: prev pos)
  case Nil
  then show ?case by (auto split: option.splits)
next
  case (Cons x xs)
  show ?case
  proof (cases "rx_match rx prev (x # xs) pos (\<lambda>n. 0) Map.empty")
    case None
    with Cons.prems have "rx_search rx (Some x) xs (Suc pos) = Some (b, e, caps)" by simp
    from Cons.IH [OF this] obtain k prev' where "k \<le> length xs" "b = Suc pos + k"
      "rx_match rx prev' (drop k xs) b (\<lambda>n. 0) Map.empty = Some (e, caps)" by blast
    then have "Suc k \<le> length (x # xs) \<and> b = pos + Suc k
      \<and> rx_match rx prev' (drop (Suc k) (x # xs)) b (\<lambda>n. 0) Map.empty = Some (e, caps)"
      by simp
    then show ?thesis by blast
  next
    case (Some r)
    with Cons.prems have "0 \<le> length (x # xs) \<and> b = pos + 0
      \<and> rx_match rx prev (drop 0 (x # xs)) b (\<lambda>n. 0) Map.empty = Some (e, caps)"
      by auto
    then show ?thesis by blast
  qed
qed

lemma rx_exec_lits:
  assumes "rx_exec rx s = Some g" and "rx = pre @ map Chr ls @ post"
  shows "\<exists>xs. sublist xs s \<and> map ascii_upper xs = map ascii_upper ls"
proof -
  from assms(1) obtain b e caps where "rx_search rx None s 0 = Some (b, e, caps)"
    by (auto simp: rx_exec_def split: option.splits)
  from rx_search_match [OF this] obtain k prev' where
    "rx_match rx prev' (drop k s) b (\<lambda>n. 0) Map.empty = Some (e, caps)" by blast
  from rx_match_lits [OF this assms(2)] obtain xs where
    xs: "sublist xs (drop k s)" "map ascii_upper xs = map ascii_upper ls" by blast
  have "sublist (drop k s) s" by (rule sublist_drop)
  with xs(1) have "sublist xs s" by (rule sublist_order.order.trans)
  with xs(2) show ?thesis by blast
qed

lemma rx_type_needs_separator:
  assumes "rx_exec rx_type s = Some g"
  shows "sublist (js ''://'') s"
proof -
  have "rx_type = [Open 1, Bol, Open 2, Letter, Dots, Close 2] @ map Chr [0x3A, 0x2F, 0x2F] @ [Close 1]"
    by (simp add: rx_type_def)
  from rx_exec_lits [OF assms this] obtain xs where
    xs: "sublist xs s" "map ascii_upper xs = map ascii_upper [0x3A, 0x2F, 0x2F]" by blast
  from xs(2) obtain a b c where abc: "xs = [a, b, c]" "ascii_upper a = ascii_upper 0x3A"
    "ascii_upper b = ascii_upper 0x2F" "ascii_upper c = ascii_upper 0x2F"
    by (cases xs; cases "tl xs"; cases "tl (tl xs)") auto
  have "a = 0x3A" "b = 0x2F" "c = 0x2F"
    using abc(2-4) by (auto dest!: ascii_upper_nonletter simp: isLetter_def)
  with abc(1) xs(1) show ?thesis by (simp add: js_def)
qed

lemma rx_network_needs_slashes:
  assumes "rx_exec rx_network s = Some g"
  shows "sublist (js ''//'') s"
proof -
  have "rx_network = [] @ map Chr [0x2F, 0x2F] @ [Open 1, DotsLazy, Close 1, Chr 0x2E, Chr 0x5F]"
    by (simp add: rx_network_def)
  from rx_exec_lits [OF assms this] obtain xs where
    xs: "sublist xs s" "map ascii_upper xs = map ascii_upper [0x2F, 0x2F]" by blast
  from xs(2) obtain a b where ab: "xs = [a, b]" "ascii_upper a = ascii_upper 0x2F"
    "ascii_upper b = ascii_upper 0x2F"
    by (cases xs; cases "tl xs") auto
  have "a = 0x2F" "b = 0x2F"
    using ab(2,3) by (auto dest!: ascii_upper_nonletter simp: isLetter_def)
  with ab(1) xs(1) show ?thesis by (simp add: js_def)
qed

subsection \<open>Classification\<close>

lemma decode_error: "decodeURIComponent s = Inl e \<Longrightarrow> e = URIError"
  by (induction s arbitrary: e rule: decodeURIComponent.induct)
     (auto split: if_splits sum.splits option.splits prod.splits)

lemma js_unknown_nonempty: "js ''unknown'' \<noteq> []"
  by (simp add: js_def)

lemma truthy_text_of: "truthy v \<Longrightarrow> text_of v \<noteq> []"
  by (auto simp: truthy_def text_of_def split: option.splits)

lemma classify_ok:
  assumes "decodeURIComponent (to_string ty) = Inr d"
  shows "\<exists>p. classify ty = Inr p \<and> uri p = ty \<and> uri_pretty p = d \<and> model p \<noteq> []"
  using assms
  by (auto simp: classify_def Let_def js_unknown_nonempty truthy_text_of split: option.splits)

lemma classify_error: "classify ty = Inl e \<Longrightarrow> e = URIError"
  by (auto simp: classify_def Let_def split: sum.splits dest: decode_error)

text \<open>
  Claim C4, as stated, fails: the token \<open>%\<close> contains no \<open>://\<close> and its classification
  raises a \<open>URIError\<close>; the token \<open>//foo._bar\<close> contains no \<open>://\<close> and its model is
  \<open>foo\<close>, the text between \<open>//\<close> and \<open>._\<close>.
\<close>

theorem classify_without_separator_counterexample:
  "\<not> sublist (js ''://'') (js ''%'') \<and> classify (Some (js ''%'')) = Inl URIError
   \<and> \<not> sublist (js ''://'') (js ''//foo._bar'')
   \<and> classify (Some (js ''//foo._bar''))
       = Inr \<lparr>uri = Some (js ''//foo._bar''), uri_pretty = js ''//foo._bar'', protocol = [],
               model = js ''foo''\<rparr>"
  by code_simp

text \<open>
  Claim C4, amended: for every token that \<open>decodeURIComponent\<close> decodes and whose decoded
  text contains no \<open>://\<close>, the classification does not fail and the protocol is the
  empty string; when the decoded text contains no \<open>//\<close> either, the model is
  \<open>unknown\<close>.
\<close>

theorem classify_without_separator:
  assumes "decodeURIComponent (to_string ty) = Inr d" and "\<not> sublist (js ''://'') d"
  shows "\<exists>p. classify ty = Inr p \<and> uri_pretty p = d \<and> protocol p = []
           \<and> (\<not> sublist (js ''//'') d \<longrightarrow> model p = js ''unknown'')"
proof -
  have t: "rx_exec rx_type d = None"
    using assms(2) rx_type_needs_separator [of d] by (cases "rx_exec rx_type d") auto
  have n: "rx_exec rx_network d = None" if "\<not> sublist (js ''//'') d"
    using that rx_network_needs_slashes [of d] by (cases "rx_exec rx_network d") auto
  have u: "[] \<noteq> js ''usb''" by (simp add: js_def)
  show ?thesis using assms(1) t n u by (auto simp: classify_def Let_def split: option.splits)
qed

text \<open>Witness for C4: the token \<open>garbage%21\<close>, which decodes to \<open>garbage!\<close>.\<close>

theorem classify_without_separator_witness:
  "decodeURIComponent (to_string (Some (js ''garbage%21''))) = Inr (js ''garbage!'')
   \<and> \<not> sublist (js ''://'') (js ''garbage!'')
   \<and> \<not> sublist (js ''//'') (js ''garbage!'')
   \<and> classify (Some (js ''garbage%21''))
       = Inr \<lparr>uri = Some (js ''garbage%21''), uri_pretty = js ''garbage!'', protocol = [],
               model = js ''unknown''\<rparr>"
proof -
  have a: "decodeURIComponent (to_string (Some (js ''garbage%21''))) = Inr (js ''garbage!'')"
    by code_simp
  have b: "\<not> sublist (js ''://'') (js ''garbage!'')" by code_simp
  have c: "\<not> sublist (js ''//'') (js ''garbage!'')" by code_simp
  have d: "classify (Some (js ''garbage%21''))
       = Inr \<lparr>uri = Some (js ''garbage%21''), uri_pretty = js ''garbage!'', protocol = [],
               model = js ''unknown''\<rparr>" by code_simp
  from classify_without_separator [OF a b] a b c d show ?thesis by blast
qed

subsection \<open>The lines of the discovery output\<close>

lemma answer_get_set:
  "answer_get (answer_set a k v) k' = (if k' = k then Some v else answer_get a k')"
  by (auto simp: answer_get_def answer_set_def)

lemma discover_line_ignored: "ignored (line_type item) \<Longrightarrow> discover_line mk a item = Inr a"
  by (simp add: discover_line_def)

lemma forEach_line_append:
  "forEach_line mk a (xs @ ys) =
     (case forEach_line mk a xs of Inl e \<Rightarrow> Inl e | Inr a' \<Rightarrow> forEach_line mk a' ys)"
  by (induction xs arbitrary: a) (auto split: sum.splits)

text \<open>
  Claim C1, as stated, fails: the backend token of the line
  \<open>socket socket://192.168.1.5:9100\<close> is in the ignore list, and yet the mapping has a
  device made from the line under the key \<open>socket\<close>. The test of the callback is on the
  second token, here the URI.
\<close>

theorem socket_backend_counterexample:
  "devices_under (js ''socket'')
     (discover id (Resolved \<lparr>stdout = js ''socket socket://192.168.1.5:9100'', stderr = []\<rparr>))
   = Inr (Some [\<lparr>uri = Some (js ''socket://192.168.1.5:9100''),
                  uri_pretty = js ''socket://192.168.1.5:9100'', protocol = js ''socket'',
                  model = js ''unknown''\<rparr>])"
  by code_simp

text \<open>
  Claim C1, amended: a line whose second space-delimited token is in the ignore list is
  discarded, whatever its first token: \<open>discover\<close> returns what it returns for the
  output without that line.
\<close>

theorem ignored_type_line_is_discarded:
  assumes "ignored (line_type item)"
    and "device_lines (stdout r) = before @ item # after"
    and "device_lines (stdout r') = before @ after"
  shows "discover mk (Resolved r) = discover mk (Resolved r')"
  using assms
  by (auto simp: discover_def forEach_line_append discover_line_ignored split: sum.splits)

text \<open>Witness for C1: the line \<open>network socket\<close> after the line of a USB printer; the
  mapping has the printer under \<open>direct\<close> and nothing under \<open>network\<close>.\<close>

theorem ignored_type_line_is_discarded_witness:
  "ignored (line_type (js ''network socket''))
   \<and> device_lines two_lines = [js ''direct usb://HP/LaserJet%20100?serial=A1''] @ js ''network socket'' # []
   \<and> device_lines one_line = [js ''direct usb://HP/LaserJet%20100?serial=A1''] @ []
   \<and> discover id (Resolved \<lparr>stdout = two_lines, stderr = []\<rparr>)
       = discover id (Resolved \<lparr>stdout = one_line, stderr = []\<rparr>)
   \<and> devices_under (js ''direct'') (discover id (Resolved \<lparr>stdout = two_lines, stderr = []\<rparr>))
       = Inr (Some [hp_params])
   \<and> devices_under (js ''network'') (discover id (Resolved \<lparr>stdout = two_lines, stderr = []\<rparr>))
       = Inr None"
proof -
  have a: "ignored (line_type (js ''network socket''))" by code_simp
  have b: "device_lines (stdout \<lparr>stdout = two_lines, stderr = []\<rparr>)
     = [js ''direct usb://HP/LaserJet%20100?serial=A1''] @ js ''network socket'' # []"
    by code_simp
  have c: "device_lines (stdout \<lparr>stdout = one_line, stderr = []\<rparr>)
     = [js ''direct usb://HP/LaserJet%20100?serial=A1''] @ []"
    by code_simp
  have d: "devices_under (js ''direct'') (discover id (Resolved \<lparr>stdout = two_lines, stderr = []\<rparr>))
       = Inr (Some [hp_params])" by code_simp
  have e: "devices_under (js ''network'') (discover id (Resolved \<lparr>stdout = two_lines, stderr = []\<rparr>))
       = Inr None" by code_simp
  from ignored_type_line_is_discarded [OF a b c, of id] a b c d e show ?thesis by simp
qed

lemma discover_line_cases:
  assumes "ignored (line_type item) \<or> decodable (line_type item)"
  shows "\<exists>a'. discover_line mk a item = Inr a'
           \<and> (\<forall>k ds. answer_get a k = Some ds \<longrightarrow> (\<exists>ds'. answer_get a' k = Some (ds @ ds')))
           \<and> (\<not> ignored (line_type item) \<longrightarrow>
                (\<exists>p ds. classify (line_type item) = Inr p \<and> model p \<noteq> []
                   \<and> answer_get a' (line_protocol item) = Some ds \<and> mk p \<in> set ds))"
proof (cases "ignored (line_type item)")
  case True
  then show ?thesis by (simp add: discover_line_ignored)
next
  case False
  with assms obtain d where "decodeURIComponent (to_string (line_type item)) = Inr d"
    by (auto simp: decodable_def split: sum.splits)
  from classify_ok [OF this] obtain p where p: "classify (line_type item) = Inr p" "model p \<noteq> []"
    by blast
  with False show ?thesis
    by (auto simp: discover_line_def Let_def answer_get_set split: option.splits)
qed

lemma forEach_line_covers:
  assumes "\<forall>item \<in> set ls. ignored (line_type item) \<or> decodable (line_type item)"
  shows "\<exists>a'. forEach_line mk a ls = Inr a'
           \<and> (\<forall>k ds. answer_get a k = Some ds \<longrightarrow> (\<exists>ds'. answer_get a' k = Some (ds @ ds')))
           \<and> (\<forall>item \<in> set ls. \<not> ignored (line_type item) \<longrightarrow>
                (\<exists>p ds. classify (line_type item) = Inr p \<and> model p \<noteq> []
                   \<and> answer_get a' (line_protocol item) = Some ds \<and> mk p \<in> set ds))"
  using assms
proof (induction ls arbitrary: a)
  case Nil
  then show ?case by simp
next
  case (Cons item ls)
  from Cons.prems have h: "ignored (line_type item) \<or> decodable (line_type item)" by simp
  from discover_line_cases [OF h, of mk a] obtain a1 where
    a1: "discover_line mk a item = Inr a1"
    and mono1: "\<And>k ds. answer_get a k = Some ds \<Longrightarrow> \<exists>ds'. answer_get a1 k = Some (ds @ ds')"
    and here: "\<not> ignored (line_type item) \<Longrightarrow>
                (\<exists>p ds. classify (line_type item) = Inr p \<and> model p \<noteq> []
                   \<and> answer_get a1 (line_protocol item) = Some ds \<and> mk p \<in> set ds)"
    by blast
  from Cons.prems have "\<forall>item \<in> set ls. ignored (line_type item) \<or> decodable (line_type item)"
    by simp
  from Cons.IH [OF this, of a1] obtain a' where
    a': "forEach_line mk a1 ls = Inr a'"
    and mono2: "\<And>k ds. answer_get a1 k = Some ds \<Longrightarrow> \<exists>ds'. answer_get a' k = Some (ds @ ds')"
    and rest: "\<forall>item \<in> set ls. \<not> ignored (line_type item) \<longrightarrow>
                (\<exists>p ds. classify (line_type item) = Inr p \<and> model p \<noteq> []
                   \<and> answer_get a' (line_protocol item) = Some ds \<and> mk p \<in> set ds)"
    by blast
  have run: "forEach_line mk a (item # ls) = Inr a'" using a1 a' by simp
  have mono: "\<exists>ds'. answer_get a' k = Some (ds @ ds')" if "answer_get a k = Some ds" for k ds
  proof -
    from mono1 [OF that] obtain d1 where "answer_get a1 k = Some (ds @ d1)" by blast
    from mono2 [OF this] obtain d2 where "answer_get a' k = Some ((ds @ d1) @ d2)" by blast
    then have "answer_get a' k = Some (ds @ (d1 @ d2))" by simp
    then show ?thesis by blast
  qed
  have first: "\<exists>p ds. classify (line_type item) = Inr p \<and> model p \<noteq> []
                   \<and> answer_get a' (line_protocol item) = Some ds \<and> mk p \<in> set ds"
    if "\<not> ignored (line_type item)"
  proof -
    from here [OF that] obtain p ds where p: "classify (line_type item) = Inr p" "model p \<noteq> []"
      "answer_get a1 (line_protocol item) = Some ds" "mk p \<in> set ds" by blast
    from mono2 [OF p(3)] obtain d2 where "answer_get a' (line_protocol item) = Some (ds @ d2)"
      by blast
    with p show ?thesis by auto
  qed
  from run mono first rest show ?case by auto
qed

text \<open>
  Claim C6, as stated, fails: a line whose percent-encoding cannot be decoded makes
  \<open>discover\<close> fail with a \<open>URIError\<close>, and the device of the line before it is lost with
  the rest of the listing.
\<close>

theorem bad_escape_counterexample:
  "devices_under (js ''direct'') (discover id (Resolved \<lparr>stdout = bad_escape_text, stderr = []\<rparr>))
     = Inl URIError"
  by code_simp

text \<open>
  Claim C6, amended: when the second token of every line that is not skipped can be
  decoded, \<open>discover\<close> does not fail and returns a mapping that covers every such line:
  the line has a device under its first token, whose model is never empty (it is
  \<open>unknown\<close> when no pattern matches).
\<close>

theorem discover_absorbs_decodable_lines:
  assumes "\<forall>item \<in> set (device_lines (stdout r)).
             ignored (line_type item) \<or> decodable (line_type item)"
  shows "\<exists>a. discover mk (Resolved r) = Inr a
           \<and> (\<forall>item \<in> set (device_lines (stdout r)). \<not> ignored (line_type item) \<longrightarrow>
                (\<exists>p ds. classify (line_type item) = Inr p \<and> model p \<noteq> []
                   \<and> answer_get a (line_protocol item) = Some ds \<and> mk p \<in> set ds))"
  using forEach_line_covers [OF assms, of mk empty_answer]
  by (auto simp: discover_def)

text \<open>Witness for C6: the line \<open>serial garbage\<close>, whose second token matches no
  pattern, becomes a device with the model \<open>unknown\<close>; the USB printer before it is kept.\<close>

theorem discover_absorbs_decodable_lines_witness:
  "list_all (\<lambda>item. ignored (line_type item) \<or> decodable (line_type item))
     (device_lines (stdout \<lparr>stdout = mixed_text, stderr = []\<rparr>))
   \<and> (\<exists>a. discover id (Resolved \<lparr>stdout = mixed_text, stderr = []\<rparr>) = Inr a
        \<and> (\<forall>item \<in> set (device_lines (stdout \<lparr>stdout = mixed_text, stderr = []\<rparr>)).
              \<not> ignored (line_type item) \<longrightarrow>
                (\<exists>p ds. classify (line_type item) = Inr p \<and> model p \<noteq> []
                   \<and> answer_get a (line_protocol item) = Some ds \<and> id p \<in> set ds)))
   \<and> devices_under (js ''serial'') (discover id (Resolved \<lparr>stdout = mixed_text, stderr = []\<rparr>))
       = Inr (Some [\<lparr>uri = Some (js ''garbage''), uri_pretty = js ''garbage'', protocol = [],
                      model = js ''unknown''\<rparr>])
   \<and> devices_under (js ''direct'') (discover id (Resolved \<lparr>stdout = mixed_text, stderr = []\<rparr>))
       = Inr (Some [hp_params])"
proof -
  have h: "list_all (\<lambda>item. ignored (line_type item) \<or> decodable (line_type item))
     (device_lines (stdout \<lparr>stdout = mixed_text, stderr = []\<rparr>))"
    by code_simp
  then have "\<forall>item \<in> set (device_lines (stdout \<lparr>stdout = mixed_text, stderr = []\<rparr>)).
             ignored (line_type item) \<or> decodable (line_type item)"
    by (simp add: list_all_iff)
  note main = discover_absorbs_decodable_lines [OF this, of id]
  have s: "devices_under (js ''serial'') (discover id (Resolved \<lparr>stdout = mixed_text, stderr = []\<rparr>))
       = Inr (Some [\<lparr>uri = Some (js ''garbage''), uri_pretty = js ''garbage'', protocol = [],
                      model = js ''unknown''\<rparr>])"
    by code_simp
  have d: "devices_under (js ''direct'') (discover id (Resolved \<lparr>stdout = mixed_text, stderr = []\<rparr>))
       = Inr (Some [hp_params])"
    by code_simp
  from h main s d show ?thesis by blast
qed

text \<open>The example in the comment of \<open>discover\<close>: a Bonjour printer listed by the
  backend class \<open>network\<close>.\<close>

lemma documented_example:
  "devices_under (js ''network'')
     (discover id (Resolved \<lparr>stdout =
        js ''network dnssd://Brother%20HL-5270DN%20series._pdl-datastream._tcp.local./?bidi'',
        stderr = []\<rparr>))
   = Inr (Some [\<lparr>uri = Some (js ''dnssd://Brother%20HL-5270DN%20series._pdl-datastream._tcp.local./?bidi''),
                  uri_pretty = js ''dnssd://Brother HL-5270DN series._pdl-datastream._tcp.local./?bidi'',
                  protocol = js ''dnssd'', model = js ''Brother HL-5270DN series''\<rparr>])"
  by code_simp

end
